theory Spec2Isabelle
  imports Complex_Main
begin

section \<open>Data model\<close>

text \<open>
  The program keeps three square boolean grids (one per view), the grid size and a
  dictionary of preferences. Python floats are modelled as exact reals: every
  coordinate below is the same arithmetic expression as in the source, read without
  rounding. Nothing in this development speaks about rounding error.
\<close>

datatype view = Front | Side | Top

datatype error = IndexError | ValueError

type_synonym vertex = "real \<times> real \<times> real"
type_synonym face = "nat \<times> nat \<times> nat"
type_synonym grid = "bool list list"

text \<open>
  The preferences dictionary. A key may be missing (a hand-written
  \<^verbatim>\<open>preferences.json\<close>), in which case \<^verbatim>\<open>preferences.get(key, default)\<close>
  yields the default written at the call site.
\<close>

record preferences =
  cell_size :: "real option"
  border_thickness :: "real option"
  pocket_depth :: "int option"
  max_recent_files :: "int option"
  openscad_binary :: "string option"

definition get_cell_size :: "preferences \<Rightarrow> real" where
  "get_cell_size P = (case cell_size P of None \<Rightarrow> 3 | Some v \<Rightarrow> v)"

definition get_border_thickness :: "preferences \<Rightarrow> real" where
  "get_border_thickness P = (case border_thickness P of None \<Rightarrow> 0.4 | Some v \<Rightarrow> v)"

definition get_pocket_depth :: "preferences \<Rightarrow> int" where
  "get_pocket_depth P = (case pocket_depth P of None \<Rightarrow> 2 | Some v \<Rightarrow> v)"

text \<open>
  \<^verbatim>\<open>self.grid_cells[view][row][col]\<close> for non-negative indices: a read past the end
  of either list raises IndexError.
\<close>

definition grid_get :: "grid \<Rightarrow> nat \<Rightarrow> nat \<Rightarrow> error + bool" where
  "grid_get g row col =
     (if row < length g
      then (if col < length (g ! row) then Inr (g ! row ! col) else Inl IndexError)
      else Inl IndexError)"

text \<open>A grid as \<^verbatim>\<open>generate_grid\<close> builds it: \<open>N\<close> rows of \<open>N\<close> cells.\<close>

definition square_grid :: "nat \<Rightarrow> grid \<Rightarrow> bool" where
  "square_grid N g = (length g = N \<and> list_all (\<lambda>r. length r = N) g)"

section \<open>Cell classification (create_stl, first two statements of the loop body)\<close>

text \<open>
  The source uses the strings \<^verbatim>\<open>"black"\<close>, \<^verbatim>\<open>"white"\<close> and \<^verbatim>\<open>"border"\<close>;
  the specification calls them Filled, Recessed and Border.
\<close>

datatype cell_type = Black | White | Border

definition classify :: "nat \<Rightarrow> nat \<Rightarrow> nat \<Rightarrow> bool \<Rightarrow> cell_type" where
  "classify N row col v =
     (let ct = (if v then Black else White)
      in if row = 0 \<or> col = 0 \<or> int row = int N - 1 \<or> int col = int N - 1
         then Border else ct)"

definition cell_type_at :: "grid \<Rightarrow> nat \<Rightarrow> nat \<Rightarrow> nat \<Rightarrow> error + cell_type" where
  "cell_type_at g N row col =
     (case grid_get g row col of
        Inl e \<Rightarrow> Inl e
      | Inr v \<Rightarrow> Inr (classify N row col v))"

section \<open>Per-cell geometry (create_stl, loop body)\<close>

definition cell_vertices :: "preferences \<Rightarrow> nat \<Rightarrow> nat \<Rightarrow> nat \<Rightarrow> vertex list" where
  "cell_vertices P N row col =
     (let cs = get_cell_size P;
          bt = get_border_thickness P;
          pd = real_of_int (get_pocket_depth P);
          extrusion_height = real N * cs;
          x_start_outer = real col * cs;
          y_start_outer = real row * cs;
          x_end_outer = x_start_outer + cs;
          y_end_outer = y_start_outer + cs;
          x_start_inner = x_start_outer + bt;
          y_start_inner = y_start_outer + bt;
          x_end_inner = x_end_outer - bt;
          y_end_inner = y_end_outer - bt
      in [(x_start_outer, y_start_outer, 0),
          (x_end_outer, y_start_outer, 0),
          (x_end_outer, y_end_outer, 0),
          (x_start_outer, y_end_outer, 0),
          (x_start_outer, y_start_outer, extrusion_height),
          (x_end_outer, y_start_outer, extrusion_height),
          (x_end_outer, y_end_outer, extrusion_height),
          (x_start_outer, y_end_outer, extrusion_height),
          (x_start_inner, y_start_inner, 0),
          (x_end_inner, y_start_inner, 0),
          (x_end_inner, y_end_inner, 0),
          (x_start_inner, y_end_inner, 0),
          (x_start_inner, y_start_inner, extrusion_height),
          (x_end_inner, y_start_inner, extrusion_height),
          (x_end_inner, y_end_inner, extrusion_height),
          (x_start_inner, y_end_inner, extrusion_height),
          (x_start_inner, y_start_inner, cs * pd - bt),
          (x_end_inner, y_start_inner, cs * pd - bt),
          (x_end_inner, y_end_inner, cs * pd - bt),
          (x_start_inner, y_end_inner, cs * pd - bt),
          (x_start_inner, y_start_inner, extrusion_height - cs * pd + bt),
          (x_end_inner, y_start_inner, extrusion_height - cs * pd + bt),
          (x_end_inner, y_end_inner, extrusion_height - cs * pd + bt),
          (x_start_inner, y_end_inner, extrusion_height - cs * pd + bt)])"

text \<open>The face groups of the loop body, in the order the source appends them.\<close>

definition border_caps :: "nat \<Rightarrow> face list" where
  "border_caps start_idx =
     [(start_idx + 0, start_idx + 1, start_idx + 2),
      (start_idx + 0, start_idx + 2, start_idx + 3),
      (start_idx + 4, start_idx + 5, start_idx + 6),
      (start_idx + 4, start_idx + 6, start_idx + 7)]"

definition shell_caps :: "nat \<Rightarrow> face list" where
  "shell_caps start_idx =
     [(start_idx + 0, start_idx + 1, start_idx + 9),
      (start_idx + 0, start_idx + 9, start_idx + 8),
      (start_idx + 1, start_idx + 2, start_idx + 10),
      (start_idx + 1, start_idx + 10, start_idx + 9),
      (start_idx + 2, start_idx + 3, start_idx + 11),
      (start_idx + 2, start_idx + 11, start_idx + 10),
      (start_idx + 3, start_idx + 0, start_idx + 8),
      (start_idx + 3, start_idx + 8, start_idx + 11),
      (start_idx + 4 + 0, start_idx + 4 + 1, start_idx + 4 + 9),
      (start_idx + 4 + 0, start_idx + 4 + 9, start_idx + 4 + 8),
      (start_idx + 4 + 1, start_idx + 4 + 2, start_idx + 4 + 10),
      (start_idx + 4 + 1, start_idx + 4 + 10, start_idx + 4 + 9),
      (start_idx + 4 + 2, start_idx + 4 + 3, start_idx + 4 + 11),
      (start_idx + 4 + 2, start_idx + 4 + 11, start_idx + 4 + 10),
      (start_idx + 4 + 3, start_idx + 4 + 0, start_idx + 4 + 8),
      (start_idx + 4 + 3, start_idx + 4 + 8, start_idx + 4 + 11)]"

definition north_faces :: "nat \<Rightarrow> face list" where
  "north_faces start_idx =
     [(start_idx + 0, start_idx + 1, start_idx + 5),
      (start_idx + 0, start_idx + 5, start_idx + 4)]"

definition south_faces :: "nat \<Rightarrow> face list" where
  "south_faces start_idx =
     [(start_idx + 2, start_idx + 3, start_idx + 7),
      (start_idx + 2, start_idx + 7, start_idx + 6)]"

definition west_faces :: "nat \<Rightarrow> face list" where
  "west_faces start_idx =
     [(start_idx + 3, start_idx + 0, start_idx + 4),
      (start_idx + 3, start_idx + 4, start_idx + 7)]"

definition east_faces :: "nat \<Rightarrow> face list" where
  "east_faces start_idx =
     [(start_idx + 1, start_idx + 2, start_idx + 6),
      (start_idx + 1, start_idx + 6, start_idx + 5)]"

definition pocket_faces :: "nat \<Rightarrow> face list" where
  "pocket_faces start_idx =
     [(start_idx + 8, start_idx + 17, start_idx + 9),
      (start_idx + 8, start_idx + 16, start_idx + 17),
      (start_idx + 9, start_idx + 18, start_idx + 10),
      (start_idx + 9, start_idx + 17, start_idx + 18),
      (start_idx + 10, start_idx + 19, start_idx + 11),
      (start_idx + 10, start_idx + 18, start_idx + 19),
      (start_idx + 11, start_idx + 16, start_idx + 8),
      (start_idx + 11, start_idx + 19, start_idx + 16),
      (start_idx + 16, start_idx + 17, start_idx + 18),
      (start_idx + 16, start_idx + 18, start_idx + 19),
      (start_idx + 20, start_idx + 13, start_idx + 21),
      (start_idx + 20, start_idx + 12, start_idx + 13),
      (start_idx + 21, start_idx + 14, start_idx + 22),
      (start_idx + 21, start_idx + 13, start_idx + 14),
      (start_idx + 22, start_idx + 15, start_idx + 23),
      (start_idx + 22, start_idx + 14, start_idx + 15),
      (start_idx + 23, start_idx + 12, start_idx + 20),
      (start_idx + 23, start_idx + 15, start_idx + 12),
      (start_idx + 20, start_idx + 21, start_idx + 22),
      (start_idx + 20, start_idx + 22, start_idx + 23)]"

definition inner_faces :: "nat \<Rightarrow> face list" where
  "inner_faces start_idx =
     [(start_idx + 8, start_idx + 13, start_idx + 9),
      (start_idx + 8, start_idx + 12, start_idx + 13),
      (start_idx + 9, start_idx + 14, start_idx + 10),
      (start_idx + 9, start_idx + 13, start_idx + 14),
      (start_idx + 10, start_idx + 15, start_idx + 11),
      (start_idx + 10, start_idx + 14, start_idx + 15),
      (start_idx + 11, start_idx + 12, start_idx + 8),
      (start_idx + 11, start_idx + 15, start_idx + 12)]"

definition cell_faces :: "nat \<Rightarrow> nat \<Rightarrow> nat \<Rightarrow> cell_type \<Rightarrow> nat \<Rightarrow> face list" where
  "cell_faces N row col ct start_idx =
     (if ct = Border then border_caps start_idx else shell_caps start_idx)
     @ (if row = 0 then north_faces start_idx else [])
     @ (if int row = int N - 1 then south_faces start_idx else [])
     @ (if col = 0 then west_faces start_idx else [])
     @ (if int col = int N - 1 then east_faces start_idx else [])
     @ (if ct = White then pocket_faces start_idx
        else if ct = Black then inner_faces start_idx
        else [])"

section \<open>Mesh assembly (create_stl, the two nested loops)\<close>

text \<open>
  The row-major sequence of cells the nested \<^verbatim>\<open>for row ... for col ...\<close> loops
  visit is \<open>List.product [0..<N] [0..<N]\<close>. The loop state is the pair of buffers
  \<^verbatim>\<open>vertices\<close> and \<^verbatim>\<open>faces\<close>; a failed grid read aborts the build.
\<close>

fun cells_loop ::
  "preferences \<Rightarrow> nat \<Rightarrow> grid \<Rightarrow> (nat \<times> nat) list \<Rightarrow> vertex list \<times> face list
     \<Rightarrow> error + (vertex list \<times> face list)" where
  "cells_loop P N g [] (vertices, faces) = Inr (vertices, faces)"
| "cells_loop P N g ((row, col) # rest) (vertices, faces) =
     (case cell_type_at g N row col of
        Inl e \<Rightarrow> Inl e
      | Inr ct \<Rightarrow>
          (let start_idx = length vertices
           in cells_loop P N g rest
                (vertices @ cell_vertices P N row col,
                 faces @ cell_faces N row col ct start_idx)))"

definition build_mesh :: "preferences \<Rightarrow> nat \<Rightarrow> grid \<Rightarrow> error + (vertex list \<times> face list)" where
  "build_mesh P N g = cells_loop P N g (List.product [0..<N] [0..<N]) ([], [])"

text \<open>
  \<^verbatim>\<open>grid_mesh.vectors[i][j] = vertices[f[j]]\<close>: each face is resolved to its three
  points; an index past the end of the vertex array raises IndexError.
\<close>

definition face_vector :: "vertex list \<Rightarrow> face \<Rightarrow> error + (vertex \<times> vertex \<times> vertex)" where
  "face_vector vertices f =
     (case f of (a, b, c) \<Rightarrow>
        if a < length vertices \<and> b < length vertices \<and> c < length vertices
        then Inr (vertices ! a, vertices ! b, vertices ! c)
        else Inl IndexError)"

fun mesh_vectors :: "vertex list \<Rightarrow> face list \<Rightarrow> error + (vertex \<times> vertex \<times> vertex) list" where
  "mesh_vectors vertices [] = Inr []"
| "mesh_vectors vertices (f # fs) =
     (case face_vector vertices f of
        Inl e \<Rightarrow> Inl e
      | Inr t \<Rightarrow> (case mesh_vectors vertices fs of
                   Inl e \<Rightarrow> Inl e
                 | Inr ts \<Rightarrow> Inr (t # ts)))"

text \<open>
  The faces the loop appends for a list of cells when the vertex buffer holds \<open>s\<close>
  entries before the first of them: each cell takes the next block of 24 indices.
\<close>

fun faces_from :: "nat \<Rightarrow> grid \<Rightarrow> nat \<Rightarrow> (nat \<times> nat) list \<Rightarrow> face list" where
  "faces_from N g s [] = []"
| "faces_from N g s ((row, col) # rest) =
     cell_faces N row col (classify N row col (g ! row ! col)) s @ faces_from N g (s + 24) rest"

section \<open>Orientation (create_stl, after the mesh is built)\<close>


section \<open>Input checks (PreferencesDialog.save_preferences, generate_grid)\<close>

text \<open>
  \<^verbatim>\<open>save_preferences\<close> of the dialog, on values already parsed. \<open>isfile\<close> is the
  answer of \<^verbatim>\<open>os.path.isfile(openscad_path)\<close>. A ValueError is caught in the
  function itself and shown in a message box; the preferences are then left as
  they were.
\<close>

definition save_preferences ::
  "real \<Rightarrow> real \<Rightarrow> int \<Rightarrow> int \<Rightarrow> string \<Rightarrow> bool \<Rightarrow> preferences \<Rightarrow> error + preferences" where
  "save_preferences cs bt pd max_recent openscad_path isfile P =
     (if cs \<le> 0 \<or> bt \<le> 0 \<or> max_recent \<le> 0 then Inl ValueError
      else if openscad_path \<noteq> [] \<and> \<not> isfile then Inl ValueError
      else Inr (P\<lparr>cell_size := Some cs, border_thickness := Some bt, pocket_depth := Some pd,
                  max_recent_files := Some max_recent, openscad_binary := Some openscad_path\<rparr>))"

record project =
  grid_size :: int
  grid_cells :: "view \<Rightarrow> grid"

text \<open>The project as \<^verbatim>\<open>__init__\<close> leaves it, and the preferences
  \<^verbatim>\<open>load_preferences\<close> returns when there is no preferences file.\<close>

definition initial_project :: project where
  "initial_project = \<lparr>grid_size = 0, grid_cells = (\<lambda>view. [])\<rparr>"

definition default_preferences :: preferences where
  "default_preferences =
     \<lparr>cell_size = Some 3.0, border_thickness = Some 0.4, pocket_depth = Some 2,
      max_recent_files = None, openscad_binary = None\<rparr>"

text \<open>
  \<^verbatim>\<open>generate_grid\<close>: \<open>None\<close> is an entry that \<^verbatim>\<open>int()\<close> cannot parse. The
  size is stored before it is checked, so a rejected number stays in
  \<^verbatim>\<open>self.grid_size\<close> while the grids keep their old contents.
\<close>

definition generate_grid :: "int option \<Rightarrow> project \<Rightarrow> error option \<times> project" where
  "generate_grid entry S =
     (case entry of
        None \<Rightarrow> (Some ValueError, S)
      | Some n \<Rightarrow>
          if \<not> (8 \<le> n \<and> n \<le> 64) then (Some ValueError, S\<lparr>grid_size := n\<rparr>)
          else (None, \<lparr>grid_size = n,
                       grid_cells = (\<lambda>view. replicate (nat n) (replicate (nat n) False))\<rparr>))"

text \<open>
  The mesh \<^verbatim>\<open>create_stl\<close> builds for a view of the project: the function starts
  with the loops, there is no check of the preferences or of the grid before them.
\<close>

definition create_stl_mesh ::
  "preferences \<Rightarrow> project \<Rightarrow> view \<Rightarrow> error + (vertex list \<times> face list)" where
  "create_stl_mesh P S view = build_mesh P (nat (grid_size S)) (grid_cells S view)"

section \<open>Re-centering (create_stl, after the rotation)\<close>

text \<open>
  \<^verbatim>\<open>grid_mesh.vectors.reshape(-1, 3)\<close> is the list of all triangle corners, three
  per face; \<^verbatim>\<open>np.mean(..., axis=0)\<close> is their mean, coordinate by coordinate. For
  a mesh without faces numpy's mean is not a number; the model's division by zero
  does not say so, and nothing below is stated for the empty mesh.
\<close>

definition corners :: "(vertex \<times> vertex \<times> vertex) list \<Rightarrow> vertex list" where
  "corners vectors = concat (map (\<lambda>(p, q, r). [p, q, r]) vectors)"


text \<open>\<^verbatim>\<open>grid_mesh.vectors += translation\<close>: the translation is added to every corner.\<close>

definition shift :: "vertex \<Rightarrow> vertex \<Rightarrow> vertex" where
  "shift translation v =
     (case (translation, v) of ((tx, ty, tz), (x, y, z)) \<Rightarrow> (x + tx, y + ty, z + tz))"






text \<open>
  The constraints the specification's data model puts on the geometry parameters:
  positive cell size and border thickness, border thinner than half a cell, positive
  pocket depth, and the two pockets together shorter than the cube. The program
  does not check them.
\<close>

definition valid_parameters :: "preferences \<Rightarrow> nat \<Rightarrow> bool" where
  "valid_parameters P N =
     (0 < get_cell_size P \<and> 0 < get_border_thickness P
      \<and> get_border_thickness P < get_cell_size P / 2
      \<and> 0 < get_pocket_depth P
      \<and> 2 * real_of_int (get_pocket_depth P) * get_cell_size P < real N * get_cell_size P)"

section \<open>The OpenSCAD script (generate_openscad_file)\<close>

text \<open>
  The objects of the script library: \<^verbatim>\<open>cube\<close>, \<^verbatim>\<open>translate\<close>, \<^verbatim>\<open>rotate\<close>,
  \<^verbatim>\<open>union\<close> and \<^verbatim>\<open>difference\<close>. \<^verbatim>\<open>a + b\<close> is the union of \<open>a\<close> and \<open>b\<close>,
  \<^verbatim>\<open>a - b\<close> their difference.
\<close>

datatype csg =
    Cube real real real
  | Translate real real real csg
  | Rotate real real real csg
  | Union "csg list"
  | Difference "csg list"

definition pocket :: "preferences \<Rightarrow> nat \<Rightarrow> nat \<Rightarrow> nat \<Rightarrow> csg" where
  "pocket P number_of_cells row col =
     (let cs = get_cell_size P;
          bt = get_border_thickness P;
          pd = real_of_int (get_pocket_depth P);
          p1 = Translate (cs * real row + bt) (cs * real col + bt) 0
                 (Cube (cs - 2 * bt) (cs - 2 * bt) (cs * pd));
          p2 = Translate (cs * real row + bt) (cs * real col + bt)
                 (cs * real number_of_cells - cs * pd)
                 (Cube (cs - 2 * bt) (cs - 2 * bt) (cs * pd))
      in Union [p1, p2])"

definition through_hole :: "preferences \<Rightarrow> nat \<Rightarrow> nat \<Rightarrow> nat \<Rightarrow> csg" where
  "through_hole P number_of_cells row col =
     (let cs = get_cell_size P;
          bt = get_border_thickness P
      in Translate (cs * real row + bt) (cs * real col + bt) 0
           (Cube (cs - 2 * bt) (cs - 2 * bt) (cs * real number_of_cells)))"

text \<open>
  \<^verbatim>\<open>cube_side\<close>: the loop state is \<^verbatim>\<open>holes\<close>; the cells visited are
  \<^verbatim>\<open>range(1, number_of_cells-1)\<close> squared.
\<close>

fun holes_loop :: "preferences \<Rightarrow> nat \<Rightarrow> grid \<Rightarrow> (nat \<times> nat) list \<Rightarrow> csg \<Rightarrow> error + csg" where
  "holes_loop P N g [] holes = Inr holes"
| "holes_loop P N g ((i, j) # rest) holes =
     (case grid_get g i j of
        Inl e \<Rightarrow> Inl e
      | Inr v \<Rightarrow>
          holes_loop P N g rest
            (Union [holes, if v then through_hole P N i j else pocket P N i j]))"

definition cube_side :: "preferences \<Rightarrow> nat \<Rightarrow> grid \<Rightarrow> error + csg" where
  "cube_side P N g = holes_loop P N g (List.product [1..<N - 1] [1..<N - 1]) (Union [])"

text \<open>\<^verbatim>\<open>cube(cell_size*number_of_cells)\<close>, the solid the holes are taken from.\<close>

definition script_cube :: "preferences \<Rightarrow> nat \<Rightarrow> csg" where
  "script_cube P number_of_cells =
     Cube (get_cell_size P * real number_of_cells) (get_cell_size P * real number_of_cells)
          (get_cell_size P * real number_of_cells)"

definition generate_openscad_file :: "preferences \<Rightarrow> nat \<Rightarrow> (view \<Rightarrow> grid) \<Rightarrow> error + csg" where
  "generate_openscad_file P N cells =
     (let cs = get_cell_size P in
      (case cube_side P N (cells Top) of Inl e \<Rightarrow> Inl e | Inr top_holes \<Rightarrow>
      (case cube_side P N (cells Front) of Inl e \<Rightarrow> Inl e | Inr front_holes \<Rightarrow>
      (case cube_side P N (cells Side) of Inl e \<Rightarrow> Inl e | Inr side_holes \<Rightarrow>
        Inr (Difference
          [Translate 0 0 (real N * cs)
             (Rotate 0 90 0
                (Difference
                   [Translate 0 (real N * cs) 0
                      (Rotate 90 0 0
                         (Difference [script_cube P N, top_holes])),
                    front_holes])),
           side_holes])))))"

text \<open>The primitive the body of the loop adds for the cell \<open>(i, j)\<close>.\<close>

definition cell_hole :: "preferences \<Rightarrow> nat \<Rightarrow> grid \<Rightarrow> nat \<Rightarrow> nat \<Rightarrow> csg" where
  "cell_hole P N g i j = (if g ! i ! j then through_hole P N i j else pocket P N i j)"

section \<open>Reading cavities off the two outputs\<close>

text \<open>
  A box is an origin and a size. \<open>boxes\<close> lists the axis-parallel boxes whose union a
  node built from \<open>Cube\<close>, \<open>Translate\<close> and \<open>Union\<close> alone denotes, which is all
  \<open>cube_side\<close> uses; a rotation or a difference contributes no box.
\<close>

type_synonym box = "vertex \<times> vertex"

fun boxes :: "csg \<Rightarrow> box list" where
  "boxes (Cube w d h) = [((0, 0, 0), (w, d, h))]"
| "boxes (Translate x y z c) = map (\<lambda>((a, b, c'), s). ((a + x, b + y, c' + z), s)) (boxes c)"
| "boxes (Union cs) = concat (map boxes cs)"
| "boxes (Rotate x y z c) = []"
| "boxes (Difference cs) = []"

text \<open>A box by its lowest and its highest corner.\<close>

definition box_corners :: "box \<Rightarrow> vertex \<times> vertex" where
  "box_corners b = (case b of ((x, y, z), (w, d, h)) \<Rightarrow> ((x, y, z), (x + w, y + d, z + h)))"

datatype cavity = NoCavity | ThroughHole | BlindPockets

text \<open>
  The cavity the script carves at cell \<open>(i, j)\<close>: the boxes whose corner sits at that
  cell's inset corner. One that starts at \<open>z = 0\<close> and is as high as the cube is a
  through hole; otherwise the boxes are blind pockets.
\<close>

definition boxes_at :: "preferences \<Rightarrow> box list \<Rightarrow> nat \<Rightarrow> nat \<Rightarrow> box list" where
  "boxes_at P bs i j =
     filter (\<lambda>((x, y, z), s). x = get_cell_size P * real i + get_border_thickness P
                            \<and> y = get_cell_size P * real j + get_border_thickness P) bs"

definition csg_cavity :: "preferences \<Rightarrow> nat \<Rightarrow> csg \<Rightarrow> nat \<Rightarrow> nat \<Rightarrow> cavity" where
  "csg_cavity P N holes i j =
     (let here = boxes_at P (boxes holes) i j
      in if here = [] then NoCavity
         else if list_ex (\<lambda>((x, y, z), (w, d, h)). z = 0 \<and> h = get_cell_size P * real N) here
         then ThroughHole
         else BlindPockets)"

text \<open>
  The cavity the mesh carries in the block of 24 vertices that starts at \<open>s\<close>. The
  vertex groups are the source's: 0-7 outer shell, 8-11 inner loop at the bottom
  face, 12-15 inner loop at the top face, 16-19 floor loop of the bottom pocket,
  20-23 ceiling loop of the top pocket. A face inside a loop caps it. Two capped
  pocket loops are a pair of blind pockets; walls that join the two inner loops
  while neither loop is capped are a shaft open at both faces, a through hole.
\<close>

definition in_group :: "nat \<Rightarrow> nat \<Rightarrow> nat \<Rightarrow> nat \<Rightarrow> bool" where
  "in_group s lo hi i = (s + lo \<le> i \<and> i < s + hi)"

definition face_within :: "nat \<Rightarrow> nat \<Rightarrow> nat \<Rightarrow> face \<Rightarrow> bool" where
  "face_within s lo hi f =
     (case f of (a, b, c) \<Rightarrow> in_group s lo hi a \<and> in_group s lo hi b \<and> in_group s lo hi c)"

definition face_touches :: "nat \<Rightarrow> nat \<Rightarrow> nat \<Rightarrow> face \<Rightarrow> bool" where
  "face_touches s lo hi f =
     (case f of (a, b, c) \<Rightarrow> in_group s lo hi a \<or> in_group s lo hi b \<or> in_group s lo hi c)"

definition mesh_cavity :: "nat \<Rightarrow> face list \<Rightarrow> cavity" where
  "mesh_cavity s faces =
     (if list_ex (face_within s 16 20) faces \<and> list_ex (face_within s 20 24) faces
      then BlindPockets
      else if list_ex (\<lambda>f. face_touches s 8 12 f \<and> face_touches s 12 16 f) faces
              \<and> \<not> list_ex (face_within s 8 12) faces
              \<and> \<not> list_ex (face_within s 12 16) faces
      then ThroughHole
      else NoCavity)"

section \<open>Orientation of a triangle\<close>

text \<open>
  The normal a triangle's winding gives (right-hand rule), and its component towards a
  point: positive when the triangle faces the point, negative when it faces away.
\<close>

definition normal :: "vertex \<times> vertex \<times> vertex \<Rightarrow> vertex" where
  "normal t =
     (case t of ((px, py, pz), (qx, qy, qz), (rx, ry, rz)) \<Rightarrow>
        ((qy - py) * (rz - pz) - (qz - pz) * (ry - py),
         (qz - pz) * (rx - px) - (qx - px) * (rz - pz),
         (qx - px) * (ry - py) - (qy - py) * (rx - px)))"

definition facing :: "vertex \<times> vertex \<times> vertex \<Rightarrow> vertex \<Rightarrow> real" where
  "facing t target =
     (case (t, normal t, target) of
        (((px, py, pz), q, r), (nx, ny, nz), (tx, ty, tz)) \<Rightarrow>
          nx * (tx - px) + ny * (ty - py) + nz * (tz - pz))"

definition local_triangle :: "vertex list \<Rightarrow> nat \<times> nat \<times> nat \<Rightarrow> vertex \<times> vertex \<times> vertex" where
  "local_triangle vs f = (case f of (a, b, c) \<Rightarrow> (vs ! a, vs ! b, vs ! c))"

section \<open>Two concrete inputs\<close>

text \<open>
  The project after \<^verbatim>\<open>generate_grid\<close> with the entry 8 on a fresh program, and the
  preferences after the dialog saved cell size 3, border thickness 0.4, pocket depth
  5, five recent files and no OpenSCAD path over the defaults.
\<close>

definition project_8 :: project where
  "project_8 = snd (generate_grid (Some 8) initial_project)"

definition deep_pocket_preferences :: preferences where
  "deep_pocket_preferences =
     \<lparr>cell_size = Some 3, border_thickness = Some 0.4, pocket_depth = Some 5,
      max_recent_files = Some 5, openscad_binary = Some []\<rparr>"

section \<open>Reading the grid\<close>

lemma grid_get_square:
  assumes "square_grid N g" "row < N" "col < N"
  shows "grid_get g row col = Inr (g ! row ! col)"
proof -
  from assms have "row < length g" by (simp add: square_grid_def)
  moreover from assms have "length (g ! row) = N"
    by (simp add: square_grid_def list_all_length)
  ultimately show ?thesis using assms by (simp add: grid_get_def)
qed

section \<open>The assembled buffers in closed form\<close>

lemma length_cell_vertices: "length (cell_vertices P N row col) = 24"
  by (simp add: cell_vertices_def Let_def)

lemma cells_loop_closed:
  assumes "square_grid N g" "list_all (\<lambda>(r, c). r < N \<and> c < N) cells"
  shows "cells_loop P N g cells (vs, fs) =
           Inr (vs @ concat (map (\<lambda>(r, c). cell_vertices P N r c) cells),
                fs @ faces_from N g (length vs) cells)"
  using assms(2)
proof (induction cells arbitrary: vs fs)
  case Nil
  then show ?case by simp
next
  case (Cons x cells)
  obtain r c where x: "x = (r, c)" by (cases x)
  with Cons.prems have rc: "r < N" "c < N" and rest: "list_all (\<lambda>(r, c). r < N \<and> c < N) cells"
    by auto
  have ct: "cell_type_at g N r c = Inr (classify N r c (g ! r ! c))"
    by (simp add: cell_type_at_def grid_get_square[OF assms(1) rc])
  show ?case
    by (simp add: x ct Cons.IH[OF rest] length_cell_vertices add.commute)
qed

lemma product_cells: "list_all (\<lambda>(r, c). r < N \<and> c < N) (List.product [0..<N] [0..<N])"
  by (auto simp: list_all_iff)

lemma length_concat_cells:
  "length (concat (map (\<lambda>(r, c). cell_vertices P N r c) cells)) = 24 * length cells"
  by (induction cells) (auto simp: length_cell_vertices)

lemma block_cells:
  "k < length cells \<Longrightarrow>
   take 24 (drop (24 * k) (concat (map (\<lambda>(r, c). cell_vertices P N r c) cells)))
     = (case cells ! k of (r, c) \<Rightarrow> cell_vertices P N r c)"
proof (induction cells arbitrary: k)
  case Nil
  then show ?case by simp
next
  case (Cons x cells)
  obtain r c where x: "x = (r, c)" by (cases x)
  show ?case
  proof (cases k)
    case 0
    then show ?thesis by (simp add: x length_cell_vertices)
  next
    case (Suc k')
    with Cons.prems have "k' < length cells" by simp
    from Cons.IH[OF this] show ?thesis
      by (simp add: Suc x length_cell_vertices)
  qed
qed

lemma faces_from_mem:
  "f \<in> set (faces_from N g s cells) \<longleftrightarrow>
     (\<exists>k < length cells. f \<in> set (cell_faces N (fst (cells ! k)) (snd (cells ! k))
          (classify N (fst (cells ! k)) (snd (cells ! k)) (g ! fst (cells ! k) ! snd (cells ! k)))
          (s + 24 * k)))"
proof (induction cells arbitrary: s)
  case Nil
  then show ?case by simp
next
  case (Cons x cells)
  obtain r c where x: "x = (r, c)" by (cases x)
  let ?F = "\<lambda>cells s k. set (cell_faces N (fst (cells ! k)) (snd (cells ! k))
          (classify N (fst (cells ! k)) (snd (cells ! k)) (g ! fst (cells ! k) ! snd (cells ! k)))
          (s + 24 * k))"
  have shift: "?F (x # cells) s (Suc k) = ?F cells (s + 24) k" for k
    by (simp add: add.assoc)
  have zero: "?F (x # cells) s 0 = set (cell_faces N r c (classify N r c (g ! r ! c)) s)"
    by (simp add: x)
  show ?case
  proof
    assume "f \<in> set (faces_from N g s (x # cells))"
    then consider "f \<in> set (cell_faces N r c (classify N r c (g ! r ! c)) s)"
      | "f \<in> set (faces_from N g (s + 24) cells)"
      by (auto simp: x)
    then show "\<exists>k<length (x # cells). f \<in> ?F (x # cells) s k"
    proof cases
      case 1
      then have "f \<in> ?F (x # cells) s 0" by (simp only: zero)
      then show ?thesis by (intro exI[of _ 0]) simp
    next
      case 2
      then obtain k where k: "k < length cells" "f \<in> ?F cells (s + 24) k"
        using Cons.IH[of "s + 24"] by blast
      then have "f \<in> ?F (x # cells) s (Suc k)" by (simp only: shift)
      with k(1) show ?thesis by (intro exI[of _ "Suc k"]) simp
    qed
  next
    assume "\<exists>k<length (x # cells). f \<in> ?F (x # cells) s k"
    then obtain k where k: "k < length (x # cells)" "f \<in> ?F (x # cells) s k" by blast
    show "f \<in> set (faces_from N g s (x # cells))"
    proof (cases k)
      case 0
      with k(2) have "f \<in> set (cell_faces N r c (classify N r c (g ! r ! c)) s)"
        by (simp only: zero)
      then show ?thesis by (simp add: x)
    next
      case (Suc k')
      with k have "k' < length cells" "f \<in> ?F cells (s + 24) k'"
        by (simp_all only: shift) simp
      then have "f \<in> set (faces_from N g (s + 24) cells)"
        using Cons.IH[of "s + 24"] by blast
      then show ?thesis by (simp add: x)
    qed
  qed
qed

lemma cell_index_bound:
  fixes row col N :: nat
  assumes a: "row < N" "col < N"
  shows "row * N + col < N * N"
proof -
  have "row * N + col < row * N + N" using a by simp
  also have "\<dots> = Suc row * N" by simp
  also have "\<dots> \<le> N * N" using a by (intro mult_le_mono1) simp
  finally show ?thesis .
qed

lemma product_nth_cell:
  assumes "row < N" "col < N"
  shows "List.product [0..<N] [0..<N] ! (row * N + col) = (row, col)"
  using cell_index_bound[OF assms] assms by (simp add: product_nth)

section \<open>Classification\<close>

text \<open>
  C3. In an \<open>N\<close> by \<open>N\<close> grid every cell \<open>(row, col)\<close> with \<open>row, col < N\<close> is
  classified; it is Border exactly on the outer ring (row or column \<open>0\<close> or
  \<open>N - 1\<close>), and otherwise Black (the specification's Filled) when its boolean is
  true and White (Recessed) when it is false. The result depends only on
  \<open>(row, col, N, value)\<close>; the grid is read, never written.
\<close>

theorem classification_rule:
  assumes "square_grid N g" "row < N" "col < N"
  shows "cell_type_at g N row col =
           Inr (if row = 0 \<or> col = 0 \<or> row = N - 1 \<or> col = N - 1 then Border
                else if g ! row ! col then Black else White)
         \<and> cell_type_at g N row col = Inr (classify N row col (g ! row ! col))
         \<and> (classify N row col v = Border
              \<longleftrightarrow> row = 0 \<or> col = 0 \<or> row = N - 1 \<or> col = N - 1)"
proof -
  have eq: "int row = int N - 1 \<longleftrightarrow> row = N - 1" "int col = int N - 1 \<longleftrightarrow> col = N - 1"
    using assms by auto
  show ?thesis
    using grid_get_square[OF assms] eq
    by (auto simp: cell_type_at_def classify_def Let_def)
qed

theorem classification_rule_witness:
  "cell_type_at [[True, True, True], [True, False, True], [True, True, True]] 3 1 1 = Inr White
   \<and> cell_type_at [[True, True, True], [True, False, True], [True, True, True]] 3 2 1 = Inr Border"
  using classification_rule[of 3 "[[True, True, True], [True, False, True], [True, True, True]]" 1 1 True]
        classification_rule[of 3 "[[True, True, True], [True, False, True], [True, True, True]]" 2 1 True]
  by (simp add: square_grid_def)

section \<open>Index ranges of the faces\<close>

lemmas face_group_defs =
  border_caps_def shell_caps_def north_faces_def south_faces_def west_faces_def
  east_faces_def pocket_faces_def inner_faces_def

lemma cell_faces_range: "list_all (face_within s 0 24) (cell_faces N row col ct s)"
  by (cases ct) (simp_all add: cell_faces_def face_group_defs face_within_def in_group_def)

lemma border_faces_range: "list_all (face_within s 0 8) (cell_faces N row col Border s)"
  by (simp add: cell_faces_def face_group_defs face_within_def in_group_def)

lemma build_mesh_closed:
  assumes "square_grid N g"
  shows "build_mesh P N g =
           Inr (concat (map (\<lambda>(r, c). cell_vertices P N r c) (List.product [0..<N] [0..<N])),
                faces_from N g 0 (List.product [0..<N] [0..<N]))"
  unfolding build_mesh_def
  using cells_loop_closed[OF assms product_cells, of P "[]" "[]"] by simp

lemma mesh_vectors_total:
  assumes "list_all (\<lambda>(a, b, c). a < length vs \<and> b < length vs \<and> c < length vs) fs"
  shows "mesh_vectors vs fs = Inr (map (local_triangle vs) fs)"
  using assms
  by (induction fs) (auto simp: face_vector_def local_triangle_def)

lemma faces_from_block:
  assumes "f \<in> set (faces_from N g s cells)"
  obtains k where "k < length cells" "face_within (s + 24 * k) 0 24 f"
    "f \<in> set (cell_faces N (fst (cells ! k)) (snd (cells ! k))
          (classify N (fst (cells ! k)) (snd (cells ! k)) (g ! fst (cells ! k) ! snd (cells ! k)))
          (s + 24 * k))"
proof -
  from assms obtain k where k: "k < length cells"
    "f \<in> set (cell_faces N (fst (cells ! k)) (snd (cells ! k))
          (classify N (fst (cells ! k)) (snd (cells ! k)) (g ! fst (cells ! k) ! snd (cells ! k)))
          (s + 24 * k))"
    unfolding faces_from_mem by blast
  from k(2) cell_faces_range have "face_within (s + 24 * k) 0 24 f"
    by (auto simp: list_all_iff)
  with k that show ?thesis by blast
qed

lemma faces_from_in_bounds:
  assumes "f \<in> set (faces_from N g 0 cells)"
  shows "case f of (a, b, c) \<Rightarrow> a < 24 * length cells \<and> b < 24 * length cells \<and> c < 24 * length cells"
proof -
  from assms obtain k where k: "k < length cells" "face_within (0 + 24 * k) 0 24 f"
    by (rule faces_from_block)
  from k(1) have "24 * k + 24 \<le> 24 * length cells" by simp
  with k(2) show ?thesis
    by (cases f) (auto simp: face_within_def in_group_def)
qed

lemma square_grid_replicate: "square_grid N (replicate N (replicate N v))"
  by (simp add: square_grid_def list_all_iff)

text \<open>
  C9. For a square grid the build succeeds, every face of the assembled buffer holds
  three indices below the length of the vertex buffer, and resolving the faces to
  points never reads past the end. Each cell contributes 24 vertices, and a cell's
  faces, built with the offset \<open>start_idx\<close> taken before its vertices were appended,
  use indices from \<open>start_idx\<close> to \<open>start_idx + 23\<close> only.
\<close>

theorem face_indices_in_bounds:
  assumes "square_grid N g"
  shows "\<exists>vertices faces vectors.
           build_mesh P N g = Inr (vertices, faces)
           \<and> list_all (\<lambda>(a, b, c). a < length vertices \<and> b < length vertices \<and> c < length vertices) faces
           \<and> mesh_vectors vertices faces = Inr vectors
           \<and> length (cell_vertices P N row col) = 24
           \<and> list_all (\<lambda>(a, b, c). start_idx \<le> a \<and> a \<le> start_idx + 23
                                  \<and> start_idx \<le> b \<and> b \<le> start_idx + 23
                                  \<and> start_idx \<le> c \<and> c \<le> start_idx + 23)
               (cell_faces N row col ct start_idx)"
proof -
  let ?cells = "List.product [0..<N] [0..<N]"
  let ?vs = "concat (map (\<lambda>(r, c). cell_vertices P N r c) ?cells)"
  let ?fs = "faces_from N g 0 ?cells"
  have len: "length ?vs = 24 * length ?cells" by (rule length_concat_cells)
  have bounds: "list_all (\<lambda>(a, b, c). a < length ?vs \<and> b < length ?vs \<and> c < length ?vs) ?fs"
    unfolding list_all_iff len using faces_from_in_bounds by blast
  have loc: "list_all (\<lambda>(a, b, c). start_idx \<le> a \<and> a \<le> start_idx + 23
                                  \<and> start_idx \<le> b \<and> b \<le> start_idx + 23
                                  \<and> start_idx \<le> c \<and> c \<le> start_idx + 23)
               (cell_faces N row col ct start_idx)"
    using cell_faces_range[of start_idx N row col ct]
    by (auto simp: list_all_iff face_within_def in_group_def)
  show ?thesis
    using build_mesh_closed[OF assms, of P] bounds mesh_vectors_total[OF bounds] loc
    by (simp add: length_cell_vertices)
qed

theorem face_indices_in_bounds_witness:
  "\<exists>vertices faces vectors.
     build_mesh default_preferences 8
        (replicate 8 (replicate 8 False)) = Inr (vertices, faces)
     \<and> list_all (\<lambda>(a, b, c). a < length vertices \<and> b < length vertices \<and> c < length vertices) faces
     \<and> mesh_vectors vertices faces = Inr vectors"
  using face_indices_in_bounds[where N = 8 and g = "replicate 8 (replicate 8 False)"
          and P = default_preferences
          and row = 0 and col = 0 and start_idx = 0 and ct = Border,
          OF square_grid_replicate]
  by blast

section \<open>Vertex blocks\<close>

lemma classify_ring:
  assumes "row < N" "col < N"
  shows "classify N row col v = Border \<longleftrightarrow> row = 0 \<or> col = 0 \<or> row = N - 1 \<or> col = N - 1"
proof -
  have "int row = int N - 1 \<longleftrightarrow> row = N - 1" "int col = int N - 1 \<longleftrightarrow> col = N - 1"
    using assms by auto
  then show ?thesis by (auto simp: classify_def Let_def)
qed

lemma same_block:
  fixes k k' i :: nat
  assumes "24 * k \<le> i" "i < 24 * k + 24" "24 * k' \<le> i" "i < 24 * k' + 24"
  shows "k = k'"
  using assms by arith

lemma touched_block:
  assumes "face_within (24 * k) 0 24 f" "face_touches (24 * k') lo hi f" "hi \<le> 24"
  shows "k = k'"
proof -
  obtain a b c where f: "f = (a, b, c)" by (cases f)
  from assms(2) obtain i where i: "i = a \<or> i = b \<or> i = c" "24 * k' + lo \<le> i" "i < 24 * k' + hi"
    by (auto simp: f face_touches_def in_group_def)
  from assms(1) i(1) have "24 * k \<le> i" "i < 24 * k + 24"
    by (auto simp: f face_within_def in_group_def)
  moreover from i assms(3) have "24 * k' \<le> i" "i < 24 * k' + 24" by auto
  ultimately show ?thesis by (rule same_block)
qed

lemma within_not_touches:
  assumes "face_within s 0 8 f"
  shows "\<not> face_touches s 8 24 f"
  using assms by (cases f) (auto simp: face_within_def face_touches_def in_group_def)

text \<open>The faces of the cell at \<open>(row, col)\<close> as they stand in the assembled buffer.\<close>

lemma faces_from_cell:
  assumes "row < N" "col < N"
  shows "set (cell_faces N row col (classify N row col (g ! row ! col)) (24 * (row * N + col)))
           \<subseteq> set (faces_from N g 0 (List.product [0..<N] [0..<N]))"
proof
  fix f
  let ?cells = "List.product [0..<N] [0..<N]"
  let ?k = "row * N + col"
  assume f: "f \<in> set (cell_faces N row col (classify N row col (g ! row ! col)) (24 * ?k))"
  have k: "?k < length ?cells" using cell_index_bound[OF assms] by simp
  have "?cells ! ?k = (row, col)" by (rule product_nth_cell[OF assms])
  with f k show "f \<in> set (faces_from N g 0 ?cells)"
    unfolding faces_from_mem by (intro exI[of _ ?k]) simp
qed

lemma faces_from_only_cell:
  assumes "row < N" "col < N" "f \<in> set (faces_from N g 0 (List.product [0..<N] [0..<N]))"
    "face_touches (24 * (row * N + col)) lo hi f" "hi \<le> 24"
  shows "f \<in> set (cell_faces N row col (classify N row col (g ! row ! col)) (24 * (row * N + col)))"
proof -
  let ?cells = "List.product [0..<N] [0..<N]"
  from assms(3) obtain k where k: "k < length ?cells" "face_within (0 + 24 * k) 0 24 f"
    "f \<in> set (cell_faces N (fst (?cells ! k)) (snd (?cells ! k))
          (classify N (fst (?cells ! k)) (snd (?cells ! k)) (g ! fst (?cells ! k) ! snd (?cells ! k)))
          (0 + 24 * k))"
    by (rule faces_from_block)
  from k(2) assms(4,5) have "k = row * N + col"
    using touched_block[of k f "row * N + col" lo hi] by simp
  with k(3) product_nth_cell[OF assms(1,2)] show ?thesis by simp
qed

text \<open>
  C10. Every cell, whatever its kind, appends the 24 entries of \<open>cell_vertices\<close>: for an
  \<open>N\<close> by \<open>N\<close> grid the vertex buffer holds \<open>24 * N * N\<close> vertices, and the cell at
  \<open>(row, col)\<close> owns the indices from \<open>24 * (row * N + col)\<close> to
  \<open>24 * (row * N + col) + 23\<close>. A cell on the outer ring puts its faces into the buffer
  with indices among its first 8 vertices only, and no face of the whole buffer
  touches its other 16 vertices.
\<close>

theorem vertex_blocks:
  assumes "square_grid N g"
  shows "\<exists>vertices faces.
           build_mesh P N g = Inr (vertices, faces)
           \<and> vertices = concat (map (\<lambda>(r, c). cell_vertices P N r c) (List.product [0..<N] [0..<N]))
           \<and> length vertices = 24 * N * N
           \<and> (\<forall>row<N. \<forall>col<N.
                 length (cell_vertices P N row col) = 24
                 \<and> take 24 (drop (24 * (row * N + col)) vertices) = cell_vertices P N row col
                 \<and> (row = 0 \<or> col = 0 \<or> row = N - 1 \<or> col = N - 1 \<longrightarrow>
                      set (cell_faces N row col Border (24 * (row * N + col))) \<subseteq> set faces
                      \<and> list_all (face_within (24 * (row * N + col)) 0 8)
                          (cell_faces N row col Border (24 * (row * N + col)))
                      \<and> \<not> list_ex (face_touches (24 * (row * N + col)) 8 24) faces))"
proof -
  let ?cells = "List.product [0..<N] [0..<N]"
  let ?vs = "concat (map (\<lambda>(r, c). cell_vertices P N r c) ?cells)"
  let ?fs = "faces_from N g 0 ?cells"
  have len: "length ?vs = 24 * N * N" by (simp add: length_concat_cells)
  have cellprops:
    "length (cell_vertices P N row col) = 24
     \<and> take 24 (drop (24 * (row * N + col)) ?vs) = cell_vertices P N row col
     \<and> (row = 0 \<or> col = 0 \<or> row = N - 1 \<or> col = N - 1 \<longrightarrow>
          set (cell_faces N row col Border (24 * (row * N + col))) \<subseteq> set ?fs
          \<and> list_all (face_within (24 * (row * N + col)) 0 8)
              (cell_faces N row col Border (24 * (row * N + col)))
          \<and> \<not> list_ex (face_touches (24 * (row * N + col)) 8 24) ?fs)"
    if rc: "row < N" "col < N" for row col
  proof (intro conjI impI)
    show "length (cell_vertices P N row col) = 24" by (rule length_cell_vertices)
    have "row * N + col < length ?cells" using cell_index_bound[OF rc] by simp
    from block_cells[OF this, of P N] product_nth_cell[OF rc]
    show "take 24 (drop (24 * (row * N + col)) ?vs) = cell_vertices P N row col" by simp
  next
    assume ring: "row = 0 \<or> col = 0 \<or> row = N - 1 \<or> col = N - 1"
    then have border: "classify N row col (g ! row ! col) = Border"
      using classify_ring[OF rc] by simp
    show "set (cell_faces N row col Border (24 * (row * N + col))) \<subseteq> set ?fs"
      using faces_from_cell[OF rc, of g] border by simp
    show "list_all (face_within (24 * (row * N + col)) 0 8)
            (cell_faces N row col Border (24 * (row * N + col)))"
      by (rule border_faces_range)
    show "\<not> list_ex (face_touches (24 * (row * N + col)) 8 24) ?fs"
    proof
      assume "list_ex (face_touches (24 * (row * N + col)) 8 24) ?fs"
      then obtain f where f: "f \<in> set ?fs" "face_touches (24 * (row * N + col)) 8 24 f"
        by (auto simp: list_ex_iff)
      then have "f \<in> set (cell_faces N row col Border (24 * (row * N + col)))"
        using faces_from_only_cell[OF rc, of f g 8 24] border by simp
      then have "face_within (24 * (row * N + col)) 0 8 f"
        using border_faces_range[of "24 * (row * N + col)" N row col] by (auto simp: list_all_iff)
      with f(2) within_not_touches show False by blast
    qed
  qed
  show ?thesis
    using build_mesh_closed[OF assms, of P] len cellprops by blast
qed

theorem vertex_blocks_witness:
  "\<exists>vertices faces.
     build_mesh default_preferences 8
        (replicate 8 (replicate 8 True)) = Inr (vertices, faces)
     \<and> length vertices = 24 * 8 * 8
     \<and> take 24 (drop (24 * (0 * 8 + 3)) vertices)
         = cell_vertices default_preferences 8 0 3
     \<and> \<not> list_ex (face_touches (24 * (0 * 8 + 3)) 8 24) faces"
proof -
  obtain vertices faces where
    "build_mesh default_preferences 8
        (replicate 8 (replicate 8 True)) = Inr (vertices, faces)"
    "length vertices = 24 * 8 * 8"
    "\<forall>row<8. \<forall>col<8.
       length (cell_vertices default_preferences 8 row col) = 24
       \<and> take 24 (drop (24 * (row * 8 + col)) vertices)
           = cell_vertices default_preferences 8 row col
       \<and> (row = 0 \<or> col = 0 \<or> row = 8 - 1 \<or> col = 8 - 1 \<longrightarrow>
            set (cell_faces 8 row col Border (24 * (row * 8 + col))) \<subseteq> set faces
            \<and> list_all (face_within (24 * (row * 8 + col)) 0 8)
                (cell_faces 8 row col Border (24 * (row * 8 + col)))
            \<and> \<not> list_ex (face_touches (24 * (row * 8 + col)) 8 24) faces)"
    using vertex_blocks[where N = 8 and g = "replicate 8 (replicate 8 True)"
          and P = default_preferences,
          OF square_grid_replicate]
    by blast
  from this(3)[rule_format, of 0 3] this(1,2) show ?thesis
    by (intro exI[of _ vertices] exI[of _ faces]) simp
qed

section \<open>Orientation of the views\<close>


section \<open>Cells of the outer ring\<close>

lemma envelope_facing:
  fixes cs H :: real
  assumes "0 < cs" "0 < H"
  shows "- (cs * (H * H)) / 2 < 0" "cs * (H * H) / 2 > 0"
  using assms by simp_all

lemma north_outward:
  assumes "0 < get_cell_size P" "0 < N"
  shows "list_all (\<lambda>f. facing (local_triangle (cell_vertices P N 0 col) f)
                     (real N * get_cell_size P / 2, real N * get_cell_size P / 2,
                      real N * get_cell_size P / 2) < 0) (north_faces 0)"
proof -
  define H where "H = real N * get_cell_size P"
  have H: "0 < H" using assms by (simp add: H_def)
  show ?thesis
    using envelope_facing[OF assms(1) H]
    apply (simp add: north_faces_def cell_vertices_def Let_def local_triangle_def H_def[symmetric])
    apply (simp add: facing_def normal_def algebra_simps)
    done
qed

lemma south_outward:
  assumes "0 < get_cell_size P" "0 < N" "row = N - 1"
  shows "list_all (\<lambda>f. facing (local_triangle (cell_vertices P N row col) f)
                     (real N * get_cell_size P / 2, real N * get_cell_size P / 2,
                      real N * get_cell_size P / 2) < 0) (south_faces 0)"
proof -
  define H where "H = real N * get_cell_size P"
  have H: "0 < H" using assms by (simp add: H_def)
  have "real N = real row + 1" using assms(2,3) by (simp add: of_nat_diff)
  then have ye: "real row * get_cell_size P + get_cell_size P = H"
    by (simp add: H_def algebra_simps)
  show ?thesis
    using envelope_facing[OF assms(1) H]
    apply (simp add: south_faces_def cell_vertices_def Let_def local_triangle_def H_def[symmetric] ye)
    apply (simp add: facing_def normal_def algebra_simps)
    done
qed

lemma west_outward:
  assumes "0 < get_cell_size P" "0 < N"
  shows "list_all (\<lambda>f. facing (local_triangle (cell_vertices P N row 0) f)
                     (real N * get_cell_size P / 2, real N * get_cell_size P / 2,
                      real N * get_cell_size P / 2) < 0) (west_faces 0)"
proof -
  define H where "H = real N * get_cell_size P"
  have H: "0 < H" using assms by (simp add: H_def)
  show ?thesis
    using envelope_facing[OF assms(1) H]
    apply (simp add: west_faces_def cell_vertices_def Let_def local_triangle_def H_def[symmetric])
    apply (simp add: facing_def normal_def algebra_simps)
    done
qed

lemma east_outward:
  assumes "0 < get_cell_size P" "0 < N" "col = N - 1"
  shows "list_all (\<lambda>f. facing (local_triangle (cell_vertices P N row col) f)
                     (real N * get_cell_size P / 2, real N * get_cell_size P / 2,
                      real N * get_cell_size P / 2) < 0) (east_faces 0)"
proof -
  define H where "H = real N * get_cell_size P"
  have H: "0 < H" using assms by (simp add: H_def)
  have "real N = real col + 1" using assms(2,3) by (simp add: of_nat_diff)
  then have xe: "real col * get_cell_size P + get_cell_size P = H"
    by (simp add: H_def algebra_simps)
  show ?thesis
    using envelope_facing[OF assms(1) H]
    apply (simp add: east_faces_def cell_vertices_def Let_def local_triangle_def H_def[symmetric] xe)
    apply (simp add: facing_def normal_def algebra_simps)
    done
qed

text \<open>
  C4. A cell on the outer ring (row or column \<open>0\<close> or \<open>N - 1\<close>) gets, whatever its
  boolean, exactly these faces: two triangles on the bottom square and two on the top
  square of its outer footprint, followed by two side-wall triangles for each side of
  the grid it lies on. All of them use the 8 outer-shell vertices only, so none is a
  pocket or hole face; the outer-shell vertices are the corners of the full cell
  footprint at \<open>z = 0\<close> and at \<open>z = N * cell_size\<close>; and for a positive cell size the
  side-wall triangles face away from the centre of the cube.
\<close>

theorem border_cell_faces:
  assumes "row < N" "col < N" "row = 0 \<or> col = 0 \<or> row = N - 1 \<or> col = N - 1"
  shows "cell_faces N row col (classify N row col v) s =
           [(s, s + 1, s + 2), (s, s + 2, s + 3), (s + 4, s + 5, s + 6), (s + 4, s + 6, s + 7)]
           @ (if row = 0 then [(s, s + 1, s + 5), (s, s + 5, s + 4)] else [])
           @ (if row = N - 1 then [(s + 2, s + 3, s + 7), (s + 2, s + 7, s + 6)] else [])
           @ (if col = 0 then [(s + 3, s, s + 4), (s + 3, s + 4, s + 7)] else [])
           @ (if col = N - 1 then [(s + 1, s + 2, s + 6), (s + 1, s + 6, s + 5)] else [])
         \<and> list_all (face_within s 0 8) (cell_faces N row col (classify N row col v) s)
         \<and> take 8 (cell_vertices P N row col) =
             [(real col * get_cell_size P, real row * get_cell_size P, 0),
              (real col * get_cell_size P + get_cell_size P, real row * get_cell_size P, 0),
              (real col * get_cell_size P + get_cell_size P,
               real row * get_cell_size P + get_cell_size P, 0),
              (real col * get_cell_size P, real row * get_cell_size P + get_cell_size P, 0),
              (real col * get_cell_size P, real row * get_cell_size P, real N * get_cell_size P),
              (real col * get_cell_size P + get_cell_size P, real row * get_cell_size P,
               real N * get_cell_size P),
              (real col * get_cell_size P + get_cell_size P,
               real row * get_cell_size P + get_cell_size P, real N * get_cell_size P),
              (real col * get_cell_size P, real row * get_cell_size P + get_cell_size P,
               real N * get_cell_size P)]
         \<and> (0 < get_cell_size P \<longrightarrow>
              list_all (\<lambda>f. facing (local_triangle (cell_vertices P N row col) f)
                          (real N * get_cell_size P / 2, real N * get_cell_size P / 2,
                           real N * get_cell_size P / 2) < 0)
                (drop 4 (cell_faces N row col (classify N row col v) 0)))"
proof -
  have border: "classify N row col v = Border"
    using classify_ring[OF assms(1,2)] assms(3) by simp
  have eq: "int row = int N - 1 \<longleftrightarrow> row = N - 1" "int col = int N - 1 \<longleftrightarrow> col = N - 1"
    using assms(1,2) by auto
  have N: "0 < N" using assms(1) by simp
  have faces: "cell_faces N row col Border t =
           border_caps t
           @ (if row = 0 then north_faces t else [])
           @ (if row = N - 1 then south_faces t else [])
           @ (if col = 0 then west_faces t else [])
           @ (if col = N - 1 then east_faces t else [])" for t
    by (simp add: cell_faces_def eq)
  have shape: "cell_faces N row col Border s =
           [(s, s + 1, s + 2), (s, s + 2, s + 3), (s + 4, s + 5, s + 6), (s + 4, s + 6, s + 7)]
           @ (if row = 0 then [(s, s + 1, s + 5), (s, s + 5, s + 4)] else [])
           @ (if row = N - 1 then [(s + 2, s + 3, s + 7), (s + 2, s + 7, s + 6)] else [])
           @ (if col = 0 then [(s + 3, s, s + 4), (s + 3, s + 4, s + 7)] else [])
           @ (if col = N - 1 then [(s + 1, s + 2, s + 6), (s + 1, s + 6, s + 5)] else [])"
    unfolding faces by (simp add: face_group_defs)
  have verts: "take 8 (cell_vertices P N row col) =
             [(real col * get_cell_size P, real row * get_cell_size P, 0),
              (real col * get_cell_size P + get_cell_size P, real row * get_cell_size P, 0),
              (real col * get_cell_size P + get_cell_size P,
               real row * get_cell_size P + get_cell_size P, 0),
              (real col * get_cell_size P, real row * get_cell_size P + get_cell_size P, 0),
              (real col * get_cell_size P, real row * get_cell_size P, real N * get_cell_size P),
              (real col * get_cell_size P + get_cell_size P, real row * get_cell_size P,
               real N * get_cell_size P),
              (real col * get_cell_size P + get_cell_size P,
               real row * get_cell_size P + get_cell_size P, real N * get_cell_size P),
              (real col * get_cell_size P, real row * get_cell_size P + get_cell_size P,
               real N * get_cell_size P)]"
    by (simp add: cell_vertices_def Let_def)
  have outward: "list_all (\<lambda>f. facing (local_triangle (cell_vertices P N row col) f)
                          (real N * get_cell_size P / 2, real N * get_cell_size P / 2,
                           real N * get_cell_size P / 2) < 0)
                (drop 4 (cell_faces N row col Border 0))" if cs: "0 < get_cell_size P"
  proof -
    have d: "drop 4 (cell_faces N row col Border 0) =
           (if row = 0 then north_faces 0 else [])
           @ (if row = N - 1 then south_faces 0 else [])
           @ (if col = 0 then west_faces 0 else [])
           @ (if col = N - 1 then east_faces 0 else [])"
      unfolding faces by (simp add: border_caps_def)
    show ?thesis
      unfolding d
      using north_outward[OF cs N, of col] south_outward[OF cs N, of row col]
        west_outward[OF cs N, of row] east_outward[OF cs N, of col row]
      by auto
  qed
  show ?thesis
    unfolding border using shape border_faces_range[of s N row col] verts outward by blast
qed

theorem border_cell_faces_witness:
  "cell_faces 8 0 3 (classify 8 0 3 True) 72 =
     [(72, 73, 74), (72, 74, 75), (76, 77, 78), (76, 78, 79), (72, 73, 77), (72, 77, 76)]
   \<and> cell_faces 8 7 0 (classify 8 7 0 False) 0 =
     [(0, 1, 2), (0, 2, 3), (4, 5, 6), (4, 6, 7), (2, 3, 7), (2, 7, 6), (3, 0, 4), (3, 4, 7)]"
  using border_cell_faces[of 0 8 3 True 72 default_preferences]
        border_cell_faces[of 7 8 0 False 0 default_preferences]
  by simp

section \<open>Recessed cells\<close>

lemma pocket_walls_inward:
  assumes "0 < get_cell_size P" "get_border_thickness P < get_cell_size P / 2"
    "get_border_thickness P < get_cell_size P * real_of_int (get_pocket_depth P)"
  shows "list_all (\<lambda>f. 0 < facing (local_triangle (cell_vertices P N row col) f)
                     (real col * get_cell_size P + get_cell_size P / 2,
                      real row * get_cell_size P + get_cell_size P / 2, 0))
           (take 8 (pocket_faces 0) @ take 8 (drop 10 (pocket_faces 0)))"
proof -
  define cs where "cs = get_cell_size P"
  define bt where "bt = get_border_thickness P"
  define pd where "pd = real_of_int (get_pocket_depth P)"
  define H where "H = real N * cs"
  define xi where "xi = real col * cs + bt"
  define yi where "yi = real row * cs + bt"
  define w where "w = cs - 2 * bt"
  define zf where "zf = cs * pd - bt"
  have w: "0 < w" and zf: "0 < zf" using assms by (simp_all add: w_def zf_def cs_def bt_def pd_def)
  have eqs: "real col * cs + bt = xi" "real row * cs + bt = yi"
    "real col * cs + cs - bt = xi + w" "real row * cs + cs - bt = yi + w"
    "cs * pd - bt = zf" "real N * cs = H" "H - cs * pd + bt = H - zf"
    "real col * cs + cs / 2 = xi + w / 2" "real row * cs + cs / 2 = yi + w / 2"
    by (simp_all add: xi_def yi_def w_def zf_def H_def field_simps)
  have pos: "0 < zf * (w * w) / 2" using w zf by simp
  show ?thesis
    using pos
    apply (simp add: pocket_faces_def cell_vertices_def Let_def local_triangle_def
        cs_def[symmetric] bt_def[symmetric] pd_def[symmetric] eqs)
    apply (simp add: facing_def normal_def algebra_simps)
    done
qed

lemma valid_parameters_pocket:
  assumes "valid_parameters P N"
  shows "get_border_thickness P < get_cell_size P * real_of_int (get_pocket_depth P)"
    and "0 < get_cell_size P * real_of_int (get_pocket_depth P) - get_border_thickness P"
    and "get_cell_size P * real_of_int (get_pocket_depth P) - get_border_thickness P
           < real N * get_cell_size P - get_cell_size P * real_of_int (get_pocket_depth P)
               + get_border_thickness P"
    and "real N * get_cell_size P - get_cell_size P * real_of_int (get_pocket_depth P)
               + get_border_thickness P < real N * get_cell_size P"
proof -
  define cs where "cs = get_cell_size P"
  define bt where "bt = get_border_thickness P"
  define pd where "pd = real_of_int (get_pocket_depth P)"
  from assms have v: "0 < cs" "0 < bt" "bt < cs / 2" "1 \<le> pd" "2 * pd * cs < real N * cs"
    by (simp_all add: valid_parameters_def cs_def bt_def pd_def)
  have "cs * 1 \<le> cs * pd" using v(1,4) by (intro mult_left_mono) simp_all
  then have "cs \<le> cs * pd" by simp
  with v(1,3) have deep: "bt < cs * pd" by linarith
  have "2 * (cs * pd) < real N * cs" using v(5) by (simp add: mult.assoc mult.commute)
  with v(2) have "cs * pd - bt < real N * cs - cs * pd + bt" by linarith
  with deep show
    "get_border_thickness P < get_cell_size P * real_of_int (get_pocket_depth P)"
    "0 < get_cell_size P * real_of_int (get_pocket_depth P) - get_border_thickness P"
    "get_cell_size P * real_of_int (get_pocket_depth P) - get_border_thickness P
           < real N * get_cell_size P - get_cell_size P * real_of_int (get_pocket_depth P)
               + get_border_thickness P"
    "real N * get_cell_size P - get_cell_size P * real_of_int (get_pocket_depth P)
               + get_border_thickness P < real N * get_cell_size P"
    by (simp_all add: cs_def bt_def pd_def)
qed

text \<open>
  C5. An inner cell whose boolean is false is White (Recessed). After the 16 triangles
  of the two cap rings it gets exactly the faces of two pockets: eight wall triangles
  from the inner loop of the bottom face (8-11) to the loop 16-19 and two triangles
  closing that loop, and the same from the loop 20-23 to the inner loop of the top face
  (12-15). The loop 16-19 lies at \<open>z = cell_size * pocket_depth - border_thickness\<close>,
  the loop 20-23 at \<open>z = N * cell_size - cell_size * pocket_depth + border_thickness\<close>,
  both over the inset footprint. No face joins the two pockets. For parameters that
  meet the constraints of the data model (\<open>valid_parameters\<close>) the floor of the bottom pocket lies above
  \<open>z = 0\<close> and below the ceiling of the top pocket, which lies below the top face, so
  material is left between the pockets, and the sixteen wall triangles face the axis
  of the cell.
\<close>

theorem recessed_cell_pockets:
  assumes "0 < row" "row < N - 1" "0 < col" "col < N - 1"
  shows "classify N row col False = White
         \<and> cell_faces N row col (classify N row col False) s =
             shell_caps s
             @ [(s + 8, s + 17, s + 9), (s + 8, s + 16, s + 17),
                (s + 9, s + 18, s + 10), (s + 9, s + 17, s + 18),
                (s + 10, s + 19, s + 11), (s + 10, s + 18, s + 19),
                (s + 11, s + 16, s + 8), (s + 11, s + 19, s + 16)]
             @ [(s + 16, s + 17, s + 18), (s + 16, s + 18, s + 19)]
             @ [(s + 20, s + 13, s + 21), (s + 20, s + 12, s + 13),
                (s + 21, s + 14, s + 22), (s + 21, s + 13, s + 14),
                (s + 22, s + 15, s + 23), (s + 22, s + 14, s + 15),
                (s + 23, s + 12, s + 20), (s + 23, s + 15, s + 12)]
             @ [(s + 20, s + 21, s + 22), (s + 20, s + 22, s + 23)]
         \<and> drop 16 (cell_vertices P N row col) =
             (let cs = get_cell_size P; bt = get_border_thickness P;
                  floor_z = cs * real_of_int (get_pocket_depth P) - bt;
                  ceiling_z = real N * cs - cs * real_of_int (get_pocket_depth P) + bt
              in [(real col * cs + bt, real row * cs + bt, floor_z),
                  (real col * cs + cs - bt, real row * cs + bt, floor_z),
                  (real col * cs + cs - bt, real row * cs + cs - bt, floor_z),
                  (real col * cs + bt, real row * cs + cs - bt, floor_z),
                  (real col * cs + bt, real row * cs + bt, ceiling_z),
                  (real col * cs + cs - bt, real row * cs + bt, ceiling_z),
                  (real col * cs + cs - bt, real row * cs + cs - bt, ceiling_z),
                  (real col * cs + bt, real row * cs + cs - bt, ceiling_z)])
         \<and> \<not> list_ex (\<lambda>f. (face_touches s 8 12 f \<or> face_touches s 16 20 f)
                          \<and> (face_touches s 12 16 f \<or> face_touches s 20 24 f))
               (cell_faces N row col (classify N row col False) s)
         \<and> (valid_parameters P N \<longrightarrow>
              0 < get_cell_size P * real_of_int (get_pocket_depth P) - get_border_thickness P
              \<and> get_cell_size P * real_of_int (get_pocket_depth P) - get_border_thickness P
                  < real N * get_cell_size P - get_cell_size P * real_of_int (get_pocket_depth P)
                      + get_border_thickness P
              \<and> real N * get_cell_size P - get_cell_size P * real_of_int (get_pocket_depth P)
                      + get_border_thickness P < real N * get_cell_size P
              \<and> list_all (\<lambda>f. 0 < facing (local_triangle (cell_vertices P N row col) f)
                               (real col * get_cell_size P + get_cell_size P / 2,
                                real row * get_cell_size P + get_cell_size P / 2, 0))
                  (take 8 (pocket_faces 0) @ take 8 (drop 10 (pocket_faces 0))))"
proof -
  have ne: "int row \<noteq> int N - 1" "int col \<noteq> int N - 1" using assms(2,4) by auto
  have white: "classify N row col False = White"
    using assms(1,3) ne by (simp add: classify_def)
  have faces: "cell_faces N row col White s = shell_caps s @ pocket_faces s"
    using assms(1,3) ne by (simp add: cell_faces_def)
  have shape: "cell_faces N row col White s =
             shell_caps s
             @ [(s + 8, s + 17, s + 9), (s + 8, s + 16, s + 17),
                (s + 9, s + 18, s + 10), (s + 9, s + 17, s + 18),
                (s + 10, s + 19, s + 11), (s + 10, s + 18, s + 19),
                (s + 11, s + 16, s + 8), (s + 11, s + 19, s + 16)]
             @ [(s + 16, s + 17, s + 18), (s + 16, s + 18, s + 19)]
             @ [(s + 20, s + 13, s + 21), (s + 20, s + 12, s + 13),
                (s + 21, s + 14, s + 22), (s + 21, s + 13, s + 14),
                (s + 22, s + 15, s + 23), (s + 22, s + 14, s + 15),
                (s + 23, s + 12, s + 20), (s + 23, s + 15, s + 12)]
             @ [(s + 20, s + 21, s + 22), (s + 20, s + 22, s + 23)]"
    unfolding faces by (simp add: pocket_faces_def)
  have verts: "drop 16 (cell_vertices P N row col) =
             (let cs = get_cell_size P; bt = get_border_thickness P;
                  floor_z = cs * real_of_int (get_pocket_depth P) - bt;
                  ceiling_z = real N * cs - cs * real_of_int (get_pocket_depth P) + bt
              in [(real col * cs + bt, real row * cs + bt, floor_z),
                  (real col * cs + cs - bt, real row * cs + bt, floor_z),
                  (real col * cs + cs - bt, real row * cs + cs - bt, floor_z),
                  (real col * cs + bt, real row * cs + cs - bt, floor_z),
                  (real col * cs + bt, real row * cs + bt, ceiling_z),
                  (real col * cs + cs - bt, real row * cs + bt, ceiling_z),
                  (real col * cs + cs - bt, real row * cs + cs - bt, ceiling_z),
                  (real col * cs + bt, real row * cs + cs - bt, ceiling_z)])"
    by (simp add: cell_vertices_def Let_def)
  have apart: "\<not> list_ex (\<lambda>f. (face_touches s 8 12 f \<or> face_touches s 16 20 f)
                          \<and> (face_touches s 12 16 f \<or> face_touches s 20 24 f))
               (cell_faces N row col White s)"
    unfolding faces
    by (simp add: shell_caps_def pocket_faces_def face_touches_def in_group_def)
  have geometry:
    "0 < get_cell_size P * real_of_int (get_pocket_depth P) - get_border_thickness P
     \<and> get_cell_size P * real_of_int (get_pocket_depth P) - get_border_thickness P
         < real N * get_cell_size P - get_cell_size P * real_of_int (get_pocket_depth P)
             + get_border_thickness P
     \<and> real N * get_cell_size P - get_cell_size P * real_of_int (get_pocket_depth P)
             + get_border_thickness P < real N * get_cell_size P
     \<and> list_all (\<lambda>f. 0 < facing (local_triangle (cell_vertices P N row col) f)
                      (real col * get_cell_size P + get_cell_size P / 2,
                       real row * get_cell_size P + get_cell_size P / 2, 0))
         (take 8 (pocket_faces 0) @ take 8 (drop 10 (pocket_faces 0)))"
    if v: "valid_parameters P N"
  proof -
    from v have cs: "0 < get_cell_size P" "get_border_thickness P < get_cell_size P / 2"
      by (simp_all add: valid_parameters_def)
    show ?thesis
      using valid_parameters_pocket[OF v]
        pocket_walls_inward[OF cs valid_parameters_pocket(1)[OF v], of N row col]
      by blast
  qed
  show ?thesis
    unfolding white using shape verts apart geometry by blast
qed

theorem recessed_cell_pockets_witness:
  "classify 8 1 2 False = White
   \<and> drop 16 (cell_vertices default_preferences 8 1 2)
       = [(6.4, 3.4, 5.6), (8.6, 3.4, 5.6), (8.6, 5.6, 5.6), (6.4, 5.6, 5.6),
          (6.4, 3.4, 18.4), (8.6, 3.4, 18.4), (8.6, 5.6, 18.4), (6.4, 5.6, 18.4)]
   \<and> list_all (\<lambda>f. 0 < facing (local_triangle
          (cell_vertices default_preferences 8 1 2) f)
          (2 * 3 + 3 / 2, 1 * 3 + 3 / 2, 0))
        (take 8 (pocket_faces 0) @ take 8 (drop 10 (pocket_faces 0)))"
proof -
  have v: "valid_parameters default_preferences 8"
    by (simp add: valid_parameters_def get_cell_size_def get_border_thickness_def
        get_pocket_depth_def default_preferences_def)
  show ?thesis
    using recessed_cell_pockets[where row = 1 and N = 8 and col = 2 and s = 0
        and P = default_preferences] v
    by (simp add: Let_def get_cell_size_def get_border_thickness_def get_pocket_depth_def default_preferences_def)
qed

section \<open>The holes of the script\<close>

lemma holes_loop_closed:
  assumes "square_grid N g" "list_all (\<lambda>(i, j). i < N \<and> j < N) cells"
  shows "\<exists>h. holes_loop P N g cells holes = Inr h
             \<and> boxes h = boxes holes @ concat (map (\<lambda>(i, j). boxes (cell_hole P N g i j)) cells)"
  using assms(2)
proof (induction cells arbitrary: holes)
  case Nil
  then show ?case by simp
next
  case (Cons x cells)
  obtain i j where x: "x = (i, j)" by (cases x)
  with Cons.prems have ij: "i < N" "j < N" and rest: "list_all (\<lambda>(i, j). i < N \<and> j < N) cells"
    by auto
  let ?holes' = "Union [holes, cell_hole P N g i j]"
  from Cons.IH[OF rest, of ?holes'] obtain h where
    h: "holes_loop P N g cells ?holes' = Inr h"
       "boxes h = boxes ?holes' @ concat (map (\<lambda>(i, j). boxes (cell_hole P N g i j)) cells)"
    by blast
  have step: "holes_loop P N g (x # cells) holes = holes_loop P N g cells ?holes'"
    by (simp add: x grid_get_square[OF assms(1) ij] cell_hole_def)
  have "holes_loop P N g (x # cells) holes = Inr h" using step h(1) by simp
  moreover have "boxes h = boxes holes
      @ concat (map (\<lambda>(i, j). boxes (cell_hole P N g i j)) (x # cells))"
    using h(2) by (simp add: x)
  ultimately show ?case by blast
qed

lemma interior_cells: "list_all (\<lambda>(i, j). i < N \<and> j < N) (List.product [1..<N - 1] [1..<N - 1])"
  by (auto simp: list_all_iff)

lemma corners_cell_hole:
  "map box_corners (boxes (cell_hole P N g i j)) =
     (let cs = get_cell_size P; bt = get_border_thickness P;
          pd = real_of_int (get_pocket_depth P)
      in if g ! i ! j
         then [((cs * real i + bt, cs * real j + bt, 0),
                (cs * real i + cs - bt, cs * real j + cs - bt, cs * real N))]
         else [((cs * real i + bt, cs * real j + bt, 0),
                (cs * real i + cs - bt, cs * real j + cs - bt, cs * pd)),
               ((cs * real i + bt, cs * real j + bt, cs * real N - cs * pd),
                (cs * real i + cs - bt, cs * real j + cs - bt, cs * real N))])"
  by (simp add: cell_hole_def through_hole_def pocket_def box_corners_def Let_def algebra_simps)

text \<open>
  C6. For a square grid \<open>cube_side\<close> returns a union of boxes with one entry per cell
  \<open>(i, j)\<close>, \<open>1 \<le> i, j \<le> N - 2\<close>, in loop order, and nothing else: for a true cell one
  box over the cell's inset footprint from \<open>z = 0\<close> to \<open>z = cell_size * N\<close>; for a
  false cell two boxes over the same footprint, each \<open>cell_size * pocket_depth\<close> high,
  one from \<open>z = 0\<close> and one up to \<open>z = cell_size * N\<close>. The footprint is that of the
  call \<open>through_hole(i, j)\<close>: the first index runs along \<open>x\<close>.
\<close>

theorem cube_side_holes:
  assumes "square_grid N g"
  shows "\<exists>holes.
           cube_side P N g = Inr holes
           \<and> map box_corners (boxes holes) =
               concat (map (\<lambda>(i, j).
                  (let cs = get_cell_size P; bt = get_border_thickness P;
                       pd = real_of_int (get_pocket_depth P)
                   in if g ! i ! j
                      then [((cs * real i + bt, cs * real j + bt, 0),
                             (cs * real i + cs - bt, cs * real j + cs - bt, cs * real N))]
                      else [((cs * real i + bt, cs * real j + bt, 0),
                             (cs * real i + cs - bt, cs * real j + cs - bt, cs * pd)),
                            ((cs * real i + bt, cs * real j + bt, cs * real N - cs * pd),
                             (cs * real i + cs - bt, cs * real j + cs - bt, cs * real N))]))
                 (List.product [1..<N - 1] [1..<N - 1]))
           \<and> list_all (\<lambda>(p, (w, d, h)).
                  h = get_cell_size P * real N
                  \<or> h = get_cell_size P * real_of_int (get_pocket_depth P)) (boxes holes)
           \<and> ((i, j) \<in> set (List.product [1..<N - 1] [1..<N - 1])
                \<longleftrightarrow> 1 \<le> i \<and> int i \<le> int N - 2 \<and> 1 \<le> j \<and> int j \<le> int N - 2)"
proof -
  let ?cells = "List.product [1..<N - 1] [1..<N - 1]"
  from holes_loop_closed[OF assms interior_cells, of P "Union []"] obtain h where
    h: "cube_side P N g = Inr h"
       "boxes h = concat (map (\<lambda>(i, j). boxes (cell_hole P N g i j)) ?cells)"
    by (auto simp: cube_side_def)
  have "map box_corners (boxes h) =
          concat (map (\<lambda>(i, j). map box_corners (boxes (cell_hole P N g i j))) ?cells)"
    unfolding h(2) by (simp add: map_concat comp_def case_prod_unfold)
  then have corners: "map box_corners (boxes h) =
               concat (map (\<lambda>(i, j).
                  (let cs = get_cell_size P; bt = get_border_thickness P;
                       pd = real_of_int (get_pocket_depth P)
                   in if g ! i ! j
                      then [((cs * real i + bt, cs * real j + bt, 0),
                             (cs * real i + cs - bt, cs * real j + cs - bt, cs * real N))]
                      else [((cs * real i + bt, cs * real j + bt, 0),
                             (cs * real i + cs - bt, cs * real j + cs - bt, cs * pd)),
                            ((cs * real i + bt, cs * real j + bt, cs * real N - cs * pd),
                             (cs * real i + cs - bt, cs * real j + cs - bt, cs * real N))]))
                 ?cells)"
    by (simp only: corners_cell_hole)
  have heights: "list_all (\<lambda>(p, (w, d, h)).
                  h = get_cell_size P * real N
                  \<or> h = get_cell_size P * real_of_int (get_pocket_depth P)) (boxes h)"
    unfolding h(2)
    by (auto simp: list_all_iff cell_hole_def through_hole_def pocket_def Let_def)
  have range: "(i, j) \<in> set ?cells
                \<longleftrightarrow> 1 \<le> i \<and> int i \<le> int N - 2 \<and> 1 \<le> j \<and> int j \<le> int N - 2"
    by auto
  show ?thesis using h(1) corners heights range by blast
qed

theorem cube_side_holes_witness:
  "\<exists>holes.
     cube_side default_preferences 4
       [[False, False, False, False], [False, True, False, False],
        [False, False, False, False], [False, False, False, False]] = Inr holes
     \<and> map box_corners (boxes holes) =
         [((3.4, 3.4, 0), (5.6, 5.6, 12)),
          ((3.4, 6.4, 0), (5.6, 8.6, 6)), ((3.4, 6.4, 6), (5.6, 8.6, 12)),
          ((6.4, 3.4, 0), (8.6, 5.6, 6)), ((6.4, 3.4, 6), (8.6, 5.6, 12)),
          ((6.4, 6.4, 0), (8.6, 8.6, 6)), ((6.4, 6.4, 6), (8.6, 8.6, 12))]"
proof -
  have sq: "square_grid 4 [[False, False, False, False], [False, True, False, False],
        [False, False, False, False], [False, False, False, False]]"
    by (simp add: square_grid_def)
  have cells: "List.product [1..<4 - 1] [1..<4 - 1] = [(1, 1), (1, 2), (2, 1), (2, 2)]"
    by (simp add: upt_rec)
  from cube_side_holes[OF sq,
      of default_preferences 1 1]
  obtain holes where
    h: "cube_side default_preferences 4
          [[False, False, False, False], [False, True, False, False],
           [False, False, False, False], [False, False, False, False]] = Inr holes"
    and c: "map box_corners (boxes holes) =
       concat (map (\<lambda>(i, j).
          (let cs = get_cell_size default_preferences;
               bt = get_border_thickness default_preferences;
               pd = real_of_int (get_pocket_depth default_preferences)
           in if [[False, False, False, False], [False, True, False, False],
                  [False, False, False, False], [False, False, False, False]] ! i ! j
              then [((cs * real i + bt, cs * real j + bt, 0),
                     (cs * real i + cs - bt, cs * real j + cs - bt, cs * real 4))]
              else [((cs * real i + bt, cs * real j + bt, 0),
                     (cs * real i + cs - bt, cs * real j + cs - bt, cs * pd)),
                    ((cs * real i + bt, cs * real j + bt, cs * real 4 - cs * pd),
                     (cs * real i + cs - bt, cs * real j + cs - bt, cs * real 4))]))
         (List.product [1..<4 - 1] [1..<4 - 1]))"
    by blast
  from c[unfolded cells] have
    "map box_corners (boxes holes) =
         [((3.4, 3.4, 0), (5.6, 5.6, 12)),
          ((3.4, 6.4, 0), (5.6, 8.6, 6)), ((3.4, 6.4, 6), (5.6, 8.6, 12)),
          ((6.4, 3.4, 0), (8.6, 5.6, 6)), ((6.4, 3.4, 6), (8.6, 5.6, 12)),
          ((6.4, 6.4, 0), (8.6, 8.6, 6)), ((6.4, 6.4, 6), (8.6, 8.6, 12))]"
    by (simp add: Let_def get_cell_size_def get_border_thickness_def get_pocket_depth_def default_preferences_def)
  with h show ?thesis by (intro exI[of _ holes]) simp
qed

section \<open>The two outputs carve the same cells\<close>

subsection \<open>The mesh\<close>

lemma list_ex_block:
  assumes "row < N" "col < N"
    and Q: "\<And>f. Q f \<Longrightarrow> face_touches (24 * (row * N + col)) 0 24 f"
  shows "list_ex Q (faces_from N g 0 (List.product [0..<N] [0..<N]))
           \<longleftrightarrow> list_ex Q (cell_faces N row col (classify N row col (g ! row ! col))
                               (24 * (row * N + col)))"
proof
  assume "list_ex Q (faces_from N g 0 (List.product [0..<N] [0..<N]))"
  then obtain f where f: "f \<in> set (faces_from N g 0 (List.product [0..<N] [0..<N]))" "Q f"
    by (auto simp: list_ex_iff)
  from faces_from_only_cell[OF assms(1,2) f(1) Q[OF f(2)]] f(2)
  show "list_ex Q (cell_faces N row col (classify N row col (g ! row ! col))
                               (24 * (row * N + col)))"
    by (auto simp: list_ex_iff)
next
  assume "list_ex Q (cell_faces N row col (classify N row col (g ! row ! col))
                               (24 * (row * N + col)))"
  then show "list_ex Q (faces_from N g 0 (List.product [0..<N] [0..<N]))"
    using faces_from_cell[OF assms(1,2), of g] by (auto simp: list_ex_iff)
qed

lemma within_touches:
  "face_within s lo hi f \<Longrightarrow> lo' \<le> lo \<Longrightarrow> hi \<le> hi' \<Longrightarrow> face_touches s lo' hi' f"
  by (cases f) (auto simp: face_within_def face_touches_def in_group_def)

lemma touches_mono:
  "face_touches s lo hi f \<Longrightarrow> lo' \<le> lo \<Longrightarrow> hi \<le> hi' \<Longrightarrow> face_touches s lo' hi' f"
  by (cases f) (auto simp: face_touches_def in_group_def)

lemma mesh_cavity_block:
  assumes "row < N" "col < N"
  shows "mesh_cavity (24 * (row * N + col)) (faces_from N g 0 (List.product [0..<N] [0..<N]))
           = mesh_cavity (24 * (row * N + col))
               (cell_faces N row col (classify N row col (g ! row ! col)) (24 * (row * N + col)))"
proof -
  let ?s = "24 * (row * N + col)"
  let ?all = "faces_from N g 0 (List.product [0..<N] [0..<N])"
  let ?own = "cell_faces N row col (classify N row col (g ! row ! col)) ?s"
  have within: "list_ex (face_within ?s lo hi) ?all = list_ex (face_within ?s lo hi) ?own"
    if "hi \<le> 24" for lo hi
    using that by (intro list_ex_block[OF assms]) (auto intro: within_touches)
  have joins: "list_ex (\<lambda>f. face_touches ?s 8 12 f \<and> face_touches ?s 12 16 f) ?all
             = list_ex (\<lambda>f. face_touches ?s 8 12 f \<and> face_touches ?s 12 16 f) ?own"
    by (intro list_ex_block[OF assms]) (auto intro: touches_mono)
  show ?thesis
    unfolding mesh_cavity_def by (simp only: within joins le_refl numeral_le_iff semiring_norm)
qed

lemma mesh_cavity_cell:
  "mesh_cavity s (cell_faces N row col ct s) =
     (case ct of Border \<Rightarrow> NoCavity | Black \<Rightarrow> ThroughHole | White \<Rightarrow> BlindPockets)"
  by (cases ct)
     (simp_all add: mesh_cavity_def cell_faces_def face_group_defs face_within_def
        face_touches_def in_group_def)

subsection \<open>The script\<close>

lemma boxes_at_cell_hole:
  assumes "get_cell_size P \<noteq> 0"
  shows "boxes_at P (boxes (cell_hole P N g i j)) row col =
           (if (i, j) = (row, col) then boxes (cell_hole P N g i j) else [])"
  using assms
  by (auto simp: boxes_at_def cell_hole_def through_hole_def pocket_def Let_def)

lemma boxes_at_concat:
  assumes "get_cell_size P \<noteq> 0" "distinct cells"
  shows "boxes_at P (concat (map (\<lambda>(i, j). boxes (cell_hole P N g i j)) cells)) row col =
           (if (row, col) \<in> set cells then boxes (cell_hole P N g row col) else [])"
  using assms(2)
proof (induction cells)
  case Nil
  then show ?case by (simp add: boxes_at_def)
next
  case (Cons x cells)
  obtain i j where x: "x = (i, j)" by (cases x)
  have app: "boxes_at P (xs @ ys) row col = boxes_at P xs row col @ boxes_at P ys row col"
    for xs ys by (simp add: boxes_at_def)
  from Cons.prems have d: "distinct cells" "x \<notin> set cells" by simp_all
  show ?case
    using Cons.IH[OF d(1)] d(2)
    by (auto simp: x app boxes_at_cell_hole[OF assms(1)])
qed

lemma interior_mem:
  assumes "row < N" "col < N"
  shows "(row, col) \<in> set (List.product [1..<N - 1] [1..<N - 1])
           \<longleftrightarrow> \<not> (row = 0 \<or> col = 0 \<or> row = N - 1 \<or> col = N - 1)"
  using assms by auto

lemma csg_cavity_cell:
  assumes "get_cell_size P \<noteq> 0" "get_pocket_depth P \<noteq> int N"
    and h: "boxes holes = concat (map (\<lambda>(i, j). boxes (cell_hole P N g i j))
                                    (List.product [1..<N - 1] [1..<N - 1]))"
    and rc: "row < N" "col < N"
  shows "csg_cavity P N holes row col =
           (if row = 0 \<or> col = 0 \<or> row = N - 1 \<or> col = N - 1 then NoCavity
            else if g ! row ! col then ThroughHole else BlindPockets)"
proof -
  have d: "distinct (List.product [1..<N - 1] [1..<N - 1])"
    by (simp add: distinct_product)
  have here: "boxes_at P (boxes holes) row col =
           (if row = 0 \<or> col = 0 \<or> row = N - 1 \<or> col = N - 1 then []
            else boxes (cell_hole P N g row col))"
    unfolding h boxes_at_concat[OF assms(1) d] interior_mem[OF rc] by simp
  have pd: "real_of_int (get_pocket_depth P) \<noteq> real N"
    using assms(2) by (metis of_int_eq_iff of_int_of_nat_eq)
  show ?thesis
    unfolding csg_cavity_def here
    using assms(1) pd
    by (auto simp: cell_hole_def through_hole_def pocket_def Let_def)
qed

lemma cube_side_boxes:
  assumes "square_grid N g"
  shows "\<exists>h. cube_side P N g = Inr h
             \<and> boxes h = concat (map (\<lambda>(i, j). boxes (cell_hole P N g i j))
                                      (List.product [1..<N - 1] [1..<N - 1]))"
  using holes_loop_closed[OF assms interior_cells, of P "Union []"]
  by (simp add: cube_side_def)

subsection \<open>Vertices by index\<close>

lemma vertex_nth:
  assumes "row < N" "col < N" "i < 24"
  shows "concat (map (\<lambda>(r, c). cell_vertices P N r c) (List.product [0..<N] [0..<N]))
           ! (24 * (row * N + col) + i) = cell_vertices P N row col ! i"
proof -
  let ?cells = "List.product [0..<N] [0..<N]"
  let ?vs = "concat (map (\<lambda>(r, c). cell_vertices P N r c) ?cells)"
  let ?k = "row * N + col"
  have k: "?k < length ?cells" using cell_index_bound[OF assms(1,2)] by simp
  have len: "length ?vs = 24 * length ?cells" by (rule length_concat_cells)
  from k have le: "24 * ?k + 24 \<le> length ?vs" unfolding len by simp
  have "take 24 (drop (24 * ?k) ?vs) = cell_vertices P N row col"
    using block_cells[OF k, of P N] product_nth_cell[OF assms(1,2)] by simp
  then have "cell_vertices P N row col ! i = take 24 (drop (24 * ?k) ?vs) ! i" by simp
  also have "\<dots> = drop (24 * ?k) ?vs ! i" using assms(3) by simp
  also have "\<dots> = ?vs ! (24 * ?k + i)" using le by (simp add: nth_drop)
  finally show ?thesis by simp
qed

lemma valid_parameters_size:
  assumes "valid_parameters P N"
  shows "0 < get_cell_size P" and "get_pocket_depth P \<noteq> int N" and "0 < N"
proof -
  define cs where "cs = get_cell_size P"
  define pd where "pd = real_of_int (get_pocket_depth P)"
  from assms have v: "0 < cs" "1 \<le> pd" "2 * pd * cs < real N * cs"
    by (simp_all add: valid_parameters_def cs_def pd_def)
  from v(1,3) have lt: "2 * pd < real N" by simp
  with v(2) have "pd \<noteq> real N" "0 < real N" by linarith+
  then show "get_pocket_depth P \<noteq> int N" "0 < N" by (auto simp: pd_def)
  show "0 < get_cell_size P" using v(1) by (simp add: cs_def)
qed

subsection \<open>Equivalence\<close>

text \<open>
  C1. For a square grid and parameters that meet the constraints of the data model,
  both builds succeed and agree cell by cell: the cavity read off the mesh in the
  vertex block of cell \<open>(row, col)\<close> is the cavity the script carves for the call with
  \<open>(row, col)\<close>: none on the outer ring, a shaft open at both faces where the
  boolean is true (the mesh joins the two inner loops by walls and caps neither, the
  script subtracts a box as high as the cube), two blind pockets where it is false.
  The outer envelope is the same cube: the corners \<open>(0, 0, 0)\<close> and
  \<open>(N * cell_size, N * cell_size, N * cell_size)\<close> of the script's cube are the first outer
  vertex of the first cell and the opposite outer vertex of the last cell of the mesh.
  In space the script lays the first index along \<open>x\<close> and the mesh lays the column
  along \<open>x\<close>: the boxes for \<open>(row, col)\<close> stand on the inner corner of the mesh cell
  \<open>(col, row)\<close>, so the two solids are mirror images in the plane \<open>x = y\<close>, and a place
  carries a cavity in one exactly when it carries one in the other.
\<close>

theorem pipelines_same_cavities:
  assumes "square_grid N g" "valid_parameters P N"
  shows "\<exists>vertices faces holes.
           build_mesh P N g = Inr (vertices, faces)
           \<and> cube_side P N g = Inr holes
           \<and> (\<forall>row<N. \<forall>col<N.
                 mesh_cavity (24 * (row * N + col)) faces = csg_cavity P N holes row col
                 \<and> csg_cavity P N holes row col =
                     (if row = 0 \<or> col = 0 \<or> row = N - 1 \<or> col = N - 1 then NoCavity
                      else if g ! row ! col then ThroughHole else BlindPockets)
                 \<and> list_all (\<lambda>((x, y, z), size). (x, y, 0) = vertices ! (24 * (col * N + row) + 8))
                       (boxes_at P (boxes holes) row col)
                 \<and> (mesh_cavity (24 * (col * N + row)) faces \<noteq> NoCavity
                      \<longleftrightarrow> csg_cavity P N holes row col \<noteq> NoCavity))
           \<and> map box_corners (boxes (script_cube P N))
               = [(vertices ! 0, vertices ! (24 * (N * N - 1) + 6))]"
proof -
  let ?cells = "List.product [0..<N] [0..<N]"
  let ?vs = "concat (map (\<lambda>(r, c). cell_vertices P N r c) ?cells)"
  let ?fs = "faces_from N g 0 ?cells"
  note v = valid_parameters_size[OF assms(2)]
  have cs: "get_cell_size P \<noteq> 0" using v(1) by simp
  from cube_side_boxes[OF assms(1), of P] obtain holes where
    h: "cube_side P N g = Inr holes"
       "boxes holes = concat (map (\<lambda>(i, j). boxes (cell_hole P N g i j))
                                 (List.product [1..<N - 1] [1..<N - 1]))"
    by blast
  have mesh: "mesh_cavity (24 * (row * N + col)) ?fs =
                (if row = 0 \<or> col = 0 \<or> row = N - 1 \<or> col = N - 1 then NoCavity
                 else if g ! row ! col then ThroughHole else BlindPockets)"
    if rc: "row < N" "col < N" for row col
  proof -
    have eq: "int row = int N - 1 \<longleftrightarrow> row = N - 1" "int col = int N - 1 \<longleftrightarrow> col = N - 1"
      using rc by auto
    show ?thesis
      unfolding mesh_cavity_block[OF rc] mesh_cavity_cell
      by (simp add: classify_def eq)
  qed
  have script: "csg_cavity P N holes row col =
                (if row = 0 \<or> col = 0 \<or> row = N - 1 \<or> col = N - 1 then NoCavity
                 else if g ! row ! col then ThroughHole else BlindPockets)"
    if rc: "row < N" "col < N" for row col
    by (rule csg_cavity_cell[OF cs v(2) h(2) rc])
  have place: "list_all (\<lambda>((x, y, z), size). (x, y, 0) = ?vs ! (24 * (col * N + row) + 8))
                 (boxes_at P (boxes holes) row col)"
    if rc: "row < N" "col < N" for row col
  proof -
    have d: "distinct (List.product [1..<N - 1] [1..<N - 1])"
      by (simp add: distinct_product)
    have "?vs ! (24 * (col * N + row) + 8) = cell_vertices P N col row ! 8"
      by (rule vertex_nth[OF rc(2,1)]) simp
    also have "\<dots> = (get_cell_size P * real row + get_border_thickness P,
                      get_cell_size P * real col + get_border_thickness P, 0)"
      by (simp add: cell_vertices_def Let_def mult.commute)
    finally show ?thesis
      unfolding h(2) boxes_at_concat[OF cs d]
      by (simp add: cell_hole_def through_hole_def pocket_def Let_def)
  qed
  have mirror: "mesh_cavity (24 * (col * N + row)) ?fs \<noteq> NoCavity
                  \<longleftrightarrow> csg_cavity P N holes row col \<noteq> NoCavity"
    if rc: "row < N" "col < N" for row col
    unfolding mesh[OF rc(2,1)] script[OF rc] by auto
  have envelope: "map box_corners (boxes (script_cube P N))
                    = [(?vs ! 0, ?vs ! (24 * (N * N - 1) + 6))]"
  proof -
    have last: "N - 1 < N" using v(3) by simp
    have idx: "(N - 1) * N + (N - 1) = N * N - 1"
      using v(3) by (cases N) (simp_all add: algebra_simps)
    have "real (N - 1) = real N - 1" using v(3) by (simp add: of_nat_diff)
    then have N: "real (N - Suc 0) * get_cell_size P + get_cell_size P = get_cell_size P * real N"
      by (simp add: algebra_simps)
    have "?vs ! (24 * (0 * N + 0) + 0) = cell_vertices P N 0 0 ! 0"
      by (rule vertex_nth[OF v(3) v(3)]) simp
    then have first: "?vs ! 0 = (0, 0, 0)"
      by (simp add: cell_vertices_def Let_def)
    have "?vs ! (24 * ((N - 1) * N + (N - 1)) + 6) = cell_vertices P N (N - 1) (N - 1) ! 6"
      by (rule vertex_nth[OF last last]) simp
    then have "?vs ! (24 * (N * N - 1) + 6) = cell_vertices P N (N - 1) (N - 1) ! 6"
      by (simp only: idx)
    also have "\<dots> = (get_cell_size P * real N, get_cell_size P * real N,
                      get_cell_size P * real N)"
      by (simp add: cell_vertices_def Let_def N mult.commute[of "real N"])
    finally show ?thesis
      by (simp add: first script_cube_def box_corners_def)
  qed
  have cellwise: "\<forall>row<N. \<forall>col<N.
                 mesh_cavity (24 * (row * N + col)) ?fs = csg_cavity P N holes row col
                 \<and> csg_cavity P N holes row col =
                     (if row = 0 \<or> col = 0 \<or> row = N - 1 \<or> col = N - 1 then NoCavity
                      else if g ! row ! col then ThroughHole else BlindPockets)
                 \<and> list_all (\<lambda>((x, y, z), size). (x, y, 0) = ?vs ! (24 * (col * N + row) + 8))
                       (boxes_at P (boxes holes) row col)
                 \<and> (mesh_cavity (24 * (col * N + row)) ?fs \<noteq> NoCavity
                      \<longleftrightarrow> csg_cavity P N holes row col \<noteq> NoCavity)"
    using mesh script place mirror by simp
  show ?thesis
    by (intro exI[of _ ?vs] exI[of _ ?fs] exI[of _ holes] conjI
        build_mesh_closed[OF assms(1)] h(1) cellwise envelope)
qed

theorem pipelines_same_cavities_witness:
  "\<exists>vertices faces holes.
     build_mesh default_preferences 8
        [replicate 8 False, replicate 8 False,
         [False, False, False, True, False, False, False, False],
         replicate 8 False, replicate 8 False, replicate 8 False, replicate 8 False,
         replicate 8 False] = Inr (vertices, faces)
     \<and> cube_side default_preferences 8
        [replicate 8 False, replicate 8 False,
         [False, False, False, True, False, False, False, False],
         replicate 8 False, replicate 8 False, replicate 8 False, replicate 8 False,
         replicate 8 False] = Inr holes
     \<and> mesh_cavity (24 * (2 * 8 + 3)) faces = ThroughHole
     \<and> csg_cavity default_preferences 8 holes 2 3 = ThroughHole
     \<and> mesh_cavity (24 * (2 * 8 + 4)) faces = BlindPockets
     \<and> csg_cavity default_preferences 8 holes 2 4 = BlindPockets
     \<and> mesh_cavity (24 * (0 * 8 + 4)) faces = NoCavity
     \<and> csg_cavity default_preferences 8 holes 0 4 = NoCavity"
proof -
  let ?P = default_preferences
  let ?g = "[replicate 8 False, replicate 8 False,
         [False, False, False, True, False, False, False, False],
         replicate 8 False, replicate 8 False, replicate 8 False, replicate 8 False,
         replicate 8 False]"
  have sq: "square_grid 8 ?g" by (simp add: square_grid_def)
  have v: "valid_parameters ?P 8"
    by (simp add: valid_parameters_def get_cell_size_def get_border_thickness_def
        get_pocket_depth_def default_preferences_def)
  from pipelines_same_cavities[OF sq v] obtain vertices faces holes where
    b: "build_mesh ?P 8 ?g = Inr (vertices, faces)" "cube_side ?P 8 ?g = Inr holes"
    and c: "\<forall>row<8. \<forall>col<8.
                 mesh_cavity (24 * (row * 8 + col)) faces = csg_cavity ?P 8 holes row col
                 \<and> csg_cavity ?P 8 holes row col =
                     (if row = 0 \<or> col = 0 \<or> row = 8 - 1 \<or> col = 8 - 1 then NoCavity
                      else if ?g ! row ! col then ThroughHole else BlindPockets)
                 \<and> list_all (\<lambda>((x, y, z), size). (x, y, 0) = vertices ! (24 * (col * 8 + row) + 8))
                       (boxes_at ?P (boxes holes) row col)
                 \<and> (mesh_cavity (24 * (col * 8 + row)) faces \<noteq> NoCavity
                      \<longleftrightarrow> csg_cavity ?P 8 holes row col \<noteq> NoCavity)"
    by blast
  from c[rule_format, of 2 3] c[rule_format, of 2 4] c[rule_format, of 0 4]
  have "mesh_cavity (24 * (2 * 8 + 3)) faces = ThroughHole
     \<and> csg_cavity ?P 8 holes 2 3 = ThroughHole
     \<and> mesh_cavity (24 * (2 * 8 + 4)) faces = BlindPockets
     \<and> csg_cavity ?P 8 holes 2 4 = BlindPockets
     \<and> mesh_cavity (24 * (0 * 8 + 4)) faces = NoCavity
     \<and> csg_cavity ?P 8 holes 0 4 = NoCavity"
    by simp
  with b show ?thesis by (intro exI[of _ vertices] exI[of _ faces] exI[of _ holes]) simp
qed

section \<open>Where the inputs are checked\<close>

lemma create_stl_mesh_total:
  assumes "square_grid (nat (grid_size S)) (grid_cells S view)"
  shows "\<exists>vertices faces. create_stl_mesh P S view = Inr (vertices, faces)
           \<and> length vertices = 24 * nat (grid_size S) * nat (grid_size S)"
  using build_mesh_closed[OF assms, of P]
  by (simp add: create_stl_mesh_def length_concat_cells)

lemma generated_project:
  assumes "8 \<le> n" "n \<le> 64"
  shows "generate_grid (Some n) S =
           (None, \<lparr>grid_size = n,
                   grid_cells = (\<lambda>view. replicate (nat n) (replicate (nat n) False))\<rparr>)"
  using assms by (simp add: generate_grid_def)

text \<open>
  C2 as the program has it. The checks sit in the two input handlers, not in the
  build. \<open>generate_grid\<close> rejects an entry that is not an integer from 8 to 64 and
  otherwise installs square grids of that size. \<open>save_preferences\<close> rejects a cell size,
  a border thickness or a number of recent files that is not positive, and an OpenSCAD
  path that is not a file; it stores any pocket depth and any border thickness below
  or above half the cell size. \<open>create_stl\<close> checks nothing: for every square grid and
  any preferences it builds the whole mesh.
\<close>

theorem validation_by_input_handlers:
  "(fst (generate_grid entry S) = Some ValueError
      \<longleftrightarrow> (case entry of None \<Rightarrow> True | Some n \<Rightarrow> \<not> (8 \<le> n \<and> n \<le> 64)))
   \<and> (fst (generate_grid entry S) = None \<longrightarrow>
        entry = Some (grid_size (snd (generate_grid entry S)))
        \<and> 8 \<le> grid_size (snd (generate_grid entry S))
        \<and> grid_size (snd (generate_grid entry S)) \<le> 64
        \<and> square_grid (nat (grid_size (snd (generate_grid entry S))))
             (grid_cells (snd (generate_grid entry S)) view))
   \<and> (save_preferences cs bt pd max_recent openscad_path isfile P = Inl ValueError
        \<longleftrightarrow> cs \<le> 0 \<or> bt \<le> 0 \<or> max_recent \<le> 0 \<or> (openscad_path \<noteq> [] \<and> \<not> isfile))
   \<and> (\<not> (cs \<le> 0 \<or> bt \<le> 0 \<or> max_recent \<le> 0 \<or> (openscad_path \<noteq> [] \<and> \<not> isfile)) \<longrightarrow>
        save_preferences cs bt pd max_recent openscad_path isfile P =
          Inr (P\<lparr>cell_size := Some cs, border_thickness := Some bt, pocket_depth := Some pd,
                 max_recent_files := Some max_recent, openscad_binary := Some openscad_path\<rparr>))
   \<and> (square_grid (nat (grid_size S)) (grid_cells S view) \<longrightarrow>
        (\<exists>vertices faces. create_stl_mesh P S view = Inr (vertices, faces)
           \<and> length vertices = 24 * nat (grid_size S) * nat (grid_size S)))"
proof -
  have g1: "fst (generate_grid entry S) = Some ValueError
      \<longleftrightarrow> (case entry of None \<Rightarrow> True | Some n \<Rightarrow> \<not> (8 \<le> n \<and> n \<le> 64))"
    by (simp add: generate_grid_def split: option.splits)
  have g2: "fst (generate_grid entry S) = None \<longrightarrow>
        entry = Some (grid_size (snd (generate_grid entry S)))
        \<and> 8 \<le> grid_size (snd (generate_grid entry S))
        \<and> grid_size (snd (generate_grid entry S)) \<le> 64
        \<and> square_grid (nat (grid_size (snd (generate_grid entry S))))
             (grid_cells (snd (generate_grid entry S)) view)"
    by (auto simp: generate_grid_def square_grid_replicate split: option.splits if_splits)
  have s1: "save_preferences cs bt pd max_recent openscad_path isfile P = Inl ValueError
        \<longleftrightarrow> cs \<le> 0 \<or> bt \<le> 0 \<or> max_recent \<le> 0 \<or> (openscad_path \<noteq> [] \<and> \<not> isfile)"
    by (auto simp: save_preferences_def)
  have s2: "\<not> (cs \<le> 0 \<or> bt \<le> 0 \<or> max_recent \<le> 0 \<or> (openscad_path \<noteq> [] \<and> \<not> isfile)) \<longrightarrow>
        save_preferences cs bt pd max_recent openscad_path isfile P =
          Inr (P\<lparr>cell_size := Some cs, border_thickness := Some bt, pocket_depth := Some pd,
                 max_recent_files := Some max_recent, openscad_binary := Some openscad_path\<rparr>)"
    by (auto simp: save_preferences_def)
  have b: "square_grid (nat (grid_size S)) (grid_cells S view) \<longrightarrow>
        (\<exists>vertices faces. create_stl_mesh P S view = Inr (vertices, faces)
           \<and> length vertices = 24 * nat (grid_size S) * nat (grid_size S))"
    using create_stl_mesh_total by blast
  show ?thesis by (intro conjI g1 g2 s1 s2 b)
qed

lemma project_8_grid:
  "nat (grid_size project_8) = 8" "square_grid (nat (grid_size project_8)) (grid_cells project_8 view)"
  by (simp_all add: project_8_def generated_project square_grid_replicate)

theorem validation_by_input_handlers_witness:
  "fst (generate_grid (Some 100) initial_project) = Some ValueError
   \<and> save_preferences 0 0.4 2 5 [] False default_preferences = Inl ValueError
   \<and> (\<exists>vertices faces.
         create_stl_mesh default_preferences project_8 Top = Inr (vertices, faces)
         \<and> length vertices = 1536)"
  using validation_by_input_handlers[where entry = "Some 100" and S = initial_project
          and cs = 0 and bt = "0.4" and pd = 2 and max_recent = 5 and openscad_path = "[]"
          and isfile = False and P = default_preferences and view = Top]
        validation_by_input_handlers[where entry = "Some 8" and S = project_8
          and cs = 0 and bt = "0.4" and pd = 2 and max_recent = 5 and openscad_path = "[]"
          and isfile = False and P = default_preferences and view = Top]
        project_8_grid(2)[of Top]
  by (simp add: project_8_grid(1))

text \<open>
  C2 as stated fails: a pocket depth of 5 cells in a cube of 8 cells (cell size 3,
  border 0.4) puts the floor of the bottom pocket at \<open>z = 14.6\<close>, above the ceiling of
  the top pocket at \<open>z = 9.4\<close>. The dialog stores these preferences, the grid of size 8
  is accepted, and the build returns the full mesh with the two loops in that order.
\<close>

theorem validation_counterexample:
  "save_preferences 3 0.4 5 5 [] False default_preferences = Inr deep_pocket_preferences
   \<and> generate_grid (Some 8) initial_project = (None, project_8)
   \<and> \<not> valid_parameters deep_pocket_preferences 8
   \<and> \<not> isl (create_stl_mesh deep_pocket_preferences project_8 Top)
   \<and> length (fst (projr (create_stl_mesh deep_pocket_preferences project_8 Top))) = 1536
   \<and> classify 8 1 1 False = White
   \<and> cell_vertices deep_pocket_preferences 8 1 1 ! 16 = (3.4, 3.4, 14.6)
   \<and> cell_vertices deep_pocket_preferences 8 1 1 ! 20 = (3.4, 3.4, 9.4)"
proof -
  from create_stl_mesh_total[OF project_8_grid(2), of deep_pocket_preferences Top]
  obtain vertices faces where
    m: "create_stl_mesh deep_pocket_preferences project_8 Top = Inr (vertices, faces)"
       "length vertices = 1536"
    by (auto simp: project_8_grid(1))
  have mesh: "\<not> isl (create_stl_mesh deep_pocket_preferences project_8 Top)"
    "length (fst (projr (create_stl_mesh deep_pocket_preferences project_8 Top))) = 1536"
    by (simp_all add: m)
  have prefs: "save_preferences 3 0.4 5 5 [] False default_preferences = Inr deep_pocket_preferences"
    by (simp add: save_preferences_def default_preferences_def deep_pocket_preferences_def)
  have grid: "generate_grid (Some 8) initial_project = (None, project_8)"
    by (simp add: project_8_def generated_project)
  have invalid: "\<not> valid_parameters deep_pocket_preferences 8"
    by (simp add: valid_parameters_def deep_pocket_preferences_def get_cell_size_def
        get_border_thickness_def get_pocket_depth_def)
  have cell: "classify 8 1 1 False = White"
    "cell_vertices deep_pocket_preferences 8 1 1 ! 16 = (3.4, 3.4, 14.6)"
    "cell_vertices deep_pocket_preferences 8 1 1 ! 20 = (3.4, 3.4, 9.4)"
    by (simp_all add: classify_def cell_vertices_def Let_def deep_pocket_preferences_def
        get_cell_size_def get_border_thickness_def get_pocket_depth_def)
  show ?thesis by (intro conjI prefs grid invalid mesh cell)
qed

section \<open>The centroid after re-centering\<close>













end
